theory Spec2Isabelle
  imports Complex_Main "HOL-Library.Word" "HOL-Library.Log_Nat"
begin

section \<open>The live audio chat session of \<open>src/components/LiveChat.tsx\<close>\<close>

text \<open>
  The component keeps its session in React state (\<open>isConnecting\<close>, \<open>isSessionActive\<close>,
  \<open>error\<close>, \<open>transcriptionHistory\<close>) and in refs (\<open>sessionPromiseRef\<close>, \<open>streamRef\<close>, the
  two audio contexts, the sampler nodes, the two transcription buffers, \<open>nextStartTimeRef\<close>
  and \<open>audioSourcesRef\<close>). The model is one record with these fields, passed explicitly.

  Conventions of the model:
  \<^item> a JavaScript string is the list of its UTF-16 code units (\<open>nat list\<close>);
  \<^item> a JavaScript number that is a time is a \<open>double\<close>, with the rounded addition of
    double precision; an audio sample of a \<open>Float32Array\<close> is the \<open>real\<close> it denotes, since
    the one operation applied to it, the product with a power of two, is exact in
    double precision;
  \<^item> calls into the browser (stopping a track, closing a context, starting or stopping a
    source node), and promise rejections that no handler catches, are recorded, in
    order, in the field \<open>effects\<close>;
  \<^item> a thrown exception or a rejected promise is a value of \<open>js_error\<close>.
\<close>

subsection \<open>Numbers\<close>

text \<open>
  A finite double is an integer multiple of \<open>2^-1074\<close> whose binary expansion has at most
  53 significant bits. The model holds a double as that integer. \<open>round53\<close> rounds an
  integer to 53 significant bits, to nearest and ties to even, which is what the
  addition of two doubles does to their exact sum. The exponent is not bounded above:
  the overflow of a sum to \<open>Infinity\<close>, beyond \<open>1.7e308\<close> seconds, is outside the model, as
  are \<open>NaN\<close> and the sign of zero.
\<close>

definition round53 :: "int \<Rightarrow> int" where
  "round53 k =
     (let a = \<bar>k\<bar>;
          s = nat (bitlen a - 53);
          q = a div 2 ^ s;
          r = a mod 2 ^ s;
          q' = (if 2 * r > 2 ^ s \<or> (2 * r = 2 ^ s \<and> odd q) then q + 1 else q)
      in sgn k * (q' * 2 ^ s))"

text \<open>An integer that has no bit set below its 53 leading ones.\<close>

definition fits53 :: "int \<Rightarrow> bool" where
  "fits53 k = (2 ^ nat (bitlen \<bar>k\<bar> - 53) dvd k)"

typedef double = "range round53"
  by blast

setup_lifting type_definition_double

instantiation double :: "{zero, plus, linorder}"
begin

lift_definition zero_double :: double is 0
  by (rule range_eqI [of _ _ 0]) (simp add: round53_def)

lift_definition plus_double :: "double \<Rightarrow> double \<Rightarrow> double" is "\<lambda>a b. round53 (a + b)"
  by simp

lift_definition less_eq_double :: "double \<Rightarrow> double \<Rightarrow> bool" is "(\<le>)" .

lift_definition less_double :: "double \<Rightarrow> double \<Rightarrow> bool" is "(<)" .

instance
  by standard (transfer; auto)+

end

text \<open>\<open>dbl m e\<close> is the double nearest to \<open>m * 2^e\<close>, for \<open>e\<close> from \<open>-1074\<close> up.\<close>

lift_definition dbl :: "int \<Rightarrow> int \<Rightarrow> double" is "\<lambda>m e. round53 (m * 2 ^ nat (1074 + e))"
  by simp


subsection \<open>Data\<close>

type_synonym jsstring = "nat list"

definition utf16 :: "string \<Rightarrow> jsstring" where
  "utf16 s = map of_char s"

datatype js_error =
    InvalidStateError
  | NotAllowedError
  | DecodeError
  | TypeError
  | OtherError string

datatype speaker = User | Model

record TranscriptionEntry =
  speaker :: speaker
  entry_text :: jsstring

text \<open>
  An \<open>AudioContext\<close> as the browser provides it. \<open>ctx_state\<close> is what its \<open>state\<close>
  attribute reads. \<open>close()\<close> marks the context as closed for later \<open>close()\<close> calls at
  once; when the \<open>state\<close> attribute starts to read \<open>closed\<close> depends on the browser:
  from the call on where the getter reflects the call (\<open>closes_at_call\<close>), otherwise from
  the task that the close queues. \<open>closing\<close> holds between the call and that task.
\<close>

datatype AudioContextState = Suspended | Running | Closed

record AudioContext =
  ctx_state :: AudioContextState
  closing :: bool
  closes_at_call :: bool

text \<open>Of a decoded \<open>AudioBuffer\<close> the handlers read the duration only.\<close>

record AudioBuffer =
  duration :: double

text \<open>
  An \<open>AudioBufferSourceNode\<close> created by the message handler: its identity, the duration
  of the buffer assigned to it and the time passed to \<open>start\<close>.
\<close>

record AudioBufferSourceNode =
  src_id :: nat
  src_duration :: double
  src_when :: double

text \<open>
  The end of a segment as the scheduler computes it, the double sum of lines 134 and 135,
  and the end as the real number that the start and the duration add up to.
\<close>

definition src_end :: "AudioBufferSourceNode \<Rightarrow> double" where
  "src_end s = src_when s + src_duration s"


datatype effect =
    SessionClose nat
  | TrackStop nat
  | ProcessorDisconnect nat
  | StreamSourceDisconnect nat
  | InputContextClose
  | OutputContextClose
  | SourceStart AudioBufferSourceNode
  | SourceStop nat
  | UnhandledRejection js_error

record live_chat =
  isConnecting :: bool
  isSessionActive :: bool
  error :: "string option"
  transcriptionHistory :: "TranscriptionEntry list"
  sessionPromiseRef :: "nat option"
  inputAudioContextRef :: "AudioContext option"
  outputAudioContextRef :: "AudioContext option"
  scriptProcessorRef :: "nat option"
  mediaStreamSourceRef :: "nat option"
  streamRef :: "nat list option"
  currentInputTranscriptionRef :: jsstring
  currentOutputTranscriptionRef :: jsstring
  nextStartTimeRef :: double
  audioSourcesRef :: "AudioBufferSourceNode list"
  sourceCounter :: nat
  closeOnResolve :: "nat list"
  effects :: "effect list"

text \<open>
  \<open>sessionPromiseRef\<close> holds the identity of the connect promise, \<open>scriptProcessorRef\<close> and
  \<open>mediaStreamSourceRef\<close> the identity of the node they point to; \<open>streamRef\<close> holds the
  identities of the stream's tracks; a context ref holds the context it points to (no
  other reference to the context exists). \<open>audioSourcesRef\<close> is a JavaScript \<open>Set\<close>, which
  iterates in insertion order: a list without repetitions. \<open>sourceCounter\<close> is the
  identity given to the next node that \<open>createBufferSource\<close> creates. \<open>closeOnResolve\<close>
  lists the connect promises on which a continuation \<open>session => session.close()\<close> has
  been registered and has not run yet.
\<close>

definition initial :: live_chat where
  "initial =
     \<lparr> isConnecting = False, isSessionActive = False, error = None,
       transcriptionHistory = [], sessionPromiseRef = None,
       inputAudioContextRef = None, outputAudioContextRef = None,
       scriptProcessorRef = None, mediaStreamSourceRef = None, streamRef = None,
       currentInputTranscriptionRef = [], currentOutputTranscriptionRef = [],
       nextStartTimeRef = 0, audioSourcesRef = [], sourceCounter = 0,
       closeOnResolve = [], effects = [] \<rparr>"

definition emit :: "effect \<Rightarrow> live_chat \<Rightarrow> live_chat" where
  "emit e st = st\<lparr>effects := effects st @ [e]\<rparr>"

definition set_add :: "'a \<Rightarrow> 'a list \<Rightarrow> 'a list" where
  "set_add x xs = (if x \<in> set xs then xs else xs @ [x])"

subsection \<open>The playback scheduler (\<open>onmessage\<close>, lines 126 to 143)\<close>

text \<open>
  Line 128, before the decode is awaited:
  \<open>nextStartTimeRef.current = Math.max(nextStartTimeRef.current, ctx.currentTime)\<close>.
\<close>

definition schedule_cursor :: "double \<Rightarrow> live_chat \<Rightarrow> live_chat" where
  "schedule_cursor now st = st\<lparr>nextStartTimeRef := max (nextStartTimeRef st) now\<rparr>"

text \<open>
  Lines 130 to 136, once the decoded buffer is there: create the source node, start it
  at the cursor, advance the cursor by the buffer's duration (a double addition), add
  the node to the set.
\<close>

definition schedule_source :: "AudioBuffer \<Rightarrow> live_chat \<Rightarrow> live_chat" where
  "schedule_source buf st =
     (let source = \<lparr> src_id = sourceCounter st, src_duration = duration buf,
                      src_when = nextStartTimeRef st \<rparr>
      in st\<lparr> sourceCounter := Suc (sourceCounter st),
              effects := effects st @ [SourceStart source],
              nextStartTimeRef := nextStartTimeRef st + duration buf,
              audioSourcesRef := set_add source (audioSourcesRef st) \<rparr>)"

definition schedule :: "double \<Rightarrow> AudioBuffer \<Rightarrow> live_chat \<Rightarrow> live_chat" where
  "schedule now buf st = schedule_source buf (schedule_cursor now st)"

text \<open>Line 133: the \<open>ended\<close> listener of a source removes it from the set.\<close>

definition ended :: "nat \<Rightarrow> live_chat \<Rightarrow> live_chat" where
  "ended i st = st\<lparr>audioSourcesRef := filter (\<lambda>s. src_id s \<noteq> i) (audioSourcesRef st)\<rparr>"

text \<open>
  Lines 140 to 142 (and 72 to 74 of \<open>stopSession\<close>): stop every source of the set, clear
  the set, reset the cursor.
\<close>

definition flush :: "live_chat \<Rightarrow> live_chat" where
  "flush st =
     st\<lparr> effects := effects st @ map (\<lambda>s. SourceStop (src_id s)) (audioSourcesRef st),
         audioSourcesRef := [],
         nextStartTimeRef := 0 \<rparr>"

text \<open>A sequence of \<open>schedule\<close> calls, each with the clock value it reads.\<close>

fun schedule_all :: "(double \<times> AudioBuffer) list \<Rightarrow> live_chat \<Rightarrow> live_chat" where
  "schedule_all [] st = st"
| "schedule_all (c # cs) st = schedule_all cs (schedule (fst c) (snd c) st)"

text \<open>The segments started so far, in the order of their \<open>start\<close> calls.\<close>

fun started :: "effect list \<Rightarrow> AudioBufferSourceNode list" where
  "started [] = []"
| "started (SourceStart s # es) = s # started es"
| "started (e # es) = started es"


definition stopped :: "effect list \<Rightarrow> nat set" where
  "stopped es = {i. SourceStop i \<in> set es}"

text \<open>
  No overlap, with the ends that the scheduler computes: whatever was started earlier
  ends before what was started later begins.
\<close>

definition back_to_back :: "AudioBufferSourceNode list \<Rightarrow> bool" where
  "back_to_back segs = sorted_wrt (\<lambda>a b. src_end a \<le> src_when b) segs"

text \<open>
  Handlers of several messages may interleave at the \<open>await\<close>: the scheduler then sees
  arrivals (line 128), completed decodes (lines 130 to 136) and \<open>ended\<close> events (line
  133) in any order.
\<close>

datatype scheduler_event = Arrived double | Decoded AudioBuffer | Ended nat

fun scheduler_step :: "scheduler_event \<Rightarrow> live_chat \<Rightarrow> live_chat" where
  "scheduler_step (Arrived now) st = schedule_cursor now st"
| "scheduler_step (Decoded buf) st = schedule_source buf st"
| "scheduler_step (Ended i) st = ended i st"

fun scheduler_run :: "scheduler_event list \<Rightarrow> live_chat \<Rightarrow> live_chat" where
  "scheduler_run [] st = st"
| "scheduler_run (e # es) st = scheduler_run es (scheduler_step e st)"

fun nonnegative :: "scheduler_event \<Rightarrow> bool" where
  "nonnegative (Decoded buf) = (0 \<le> duration buf)"
| "nonnegative _ = True"

definition started_by :: "scheduler_event list \<Rightarrow> live_chat \<Rightarrow> AudioBufferSourceNode list" where
  "started_by es st =
     drop (length (started (effects st))) (started (effects (scheduler_run es st)))"

subsection \<open>Teardown (\<open>stopSession\<close>, lines 44 to 78)\<close>

text \<open>
  \<open>AudioContext.close()\<close> returns a promise. On a context that is closed, or on which
  \<open>close()\<close> has been called already, the promise is rejected with \<open>InvalidStateError\<close>;
  \<open>stopSession\<close> attaches no handler to it, so the rejection is unhandled. Otherwise the
  context is closed: its \<open>state\<close> reads \<open>closed\<close> at once where the browser's getter
  reflects the call, and from the queued task on (\<open>state_task\<close>) where it does not.
\<close>

definition close_context :: "AudioContext \<Rightarrow> js_error + AudioContext" where
  "close_context c =
     (if ctx_state c = Closed \<or> closing c then Inl InvalidStateError
      else Inr (if closes_at_call c then c\<lparr>ctx_state := Closed\<rparr> else c\<lparr>closing := True\<rparr>))"


text \<open>
  Lines 45 to 48: \<open>sessionPromiseRef.current.then(session => session.close())\<close> registers
  the close of the connection as a continuation of the connect promise and clears the
  ref; the close itself runs when the promise resolves.
\<close>

definition release_session :: "live_chat \<Rightarrow> live_chat" where
  "release_session st =
     (case sessionPromiseRef st of
        Some p \<Rightarrow> st\<lparr>closeOnResolve := closeOnResolve st @ [p], sessionPromiseRef := None\<rparr>
      | None \<Rightarrow> st)"


definition connect_rejected :: "nat \<Rightarrow> js_error \<Rightarrow> live_chat \<Rightarrow> live_chat" where
  "connect_rejected p e st =
     st\<lparr> effects := effects st
           @ map (\<lambda>q. UnhandledRejection e) (filter (\<lambda>q. q = p) (closeOnResolve st)),
         closeOnResolve := filter (\<lambda>q. q \<noteq> p) (closeOnResolve st) \<rparr>"

text \<open>Lines 50 to 53.\<close>

definition release_stream :: "live_chat \<Rightarrow> live_chat" where
  "release_stream st =
     (case streamRef st of
        Some tracks \<Rightarrow> st\<lparr>effects := effects st @ map TrackStop tracks, streamRef := None\<rparr>
      | None \<Rightarrow> st)"

text \<open>Lines 55 to 58.\<close>

definition release_processor :: "live_chat \<Rightarrow> live_chat" where
  "release_processor st =
     (case scriptProcessorRef st of
        Some n \<Rightarrow> (emit (ProcessorDisconnect n) st)\<lparr>scriptProcessorRef := None\<rparr>
      | None \<Rightarrow> st)"

text \<open>Lines 60 to 63.\<close>

definition release_stream_source :: "live_chat \<Rightarrow> live_chat" where
  "release_stream_source st =
     (case mediaStreamSourceRef st of
        Some n \<Rightarrow> (emit (StreamSourceDisconnect n) st)\<lparr>mediaStreamSourceRef := None\<rparr>
      | None \<Rightarrow> st)"

text \<open>
  Lines 65 to 67: the context is closed when its \<open>state\<close> does not read \<open>closed\<close>. The ref
  keeps pointing to the context.
\<close>

definition close_input :: "live_chat \<Rightarrow> live_chat" where
  "close_input st =
     (case inputAudioContextRef st of
        Some c \<Rightarrow>
          if ctx_state c \<noteq> Closed then
            (case close_context c of
               Inl e \<Rightarrow> emit (UnhandledRejection e) st
             | Inr c' \<Rightarrow> (emit InputContextClose st)\<lparr>inputAudioContextRef := Some c'\<rparr>)
          else st
      | None \<Rightarrow> st)"

text \<open>Lines 68 to 70.\<close>

definition close_output :: "live_chat \<Rightarrow> live_chat" where
  "close_output st =
     (case outputAudioContextRef st of
        Some c \<Rightarrow>
          if ctx_state c \<noteq> Closed then
            (case close_context c of
               Inl e \<Rightarrow> emit (UnhandledRejection e) st
             | Inr c' \<Rightarrow> (emit OutputContextClose st)\<lparr>outputAudioContextRef := Some c'\<rparr>)
          else st
      | None \<Rightarrow> st)"

text \<open>
  No statement of \<open>stopSession\<close> throws: the sources of the set have all been started
  (line 134 precedes line 136), so their \<open>stop\<close> is allowed.
\<close>

definition stopSession :: "live_chat \<Rightarrow> live_chat" where
  "stopSession st =
     (flush
        (close_output
           (close_input
              (release_stream_source
                 (release_processor (release_stream (release_session st)))))))
     \<lparr>isSessionActive := False, isConnecting := False\<rparr>"


text \<open>What a handler performed: what it appended to the effects.\<close>

definition performed :: "live_chat \<Rightarrow> live_chat \<Rightarrow> effect list" where
  "performed before after = drop (length (effects before)) (effects after)"


text \<open>
  A context ref holds an open context; a close of the context is in flight (called, and
  the \<open>state\<close> does not read \<open>closed\<close> yet); no close is in flight in a state.
\<close>

definition holds_context :: "AudioContext option \<Rightarrow> bool" where
  "holds_context r = (case r of Some c \<Rightarrow> ctx_state c \<noteq> Closed \<and> \<not> closing c | None \<Rightarrow> False)"

definition in_flight :: "AudioContext option \<Rightarrow> bool" where
  "in_flight r = (case r of Some c \<Rightarrow> ctx_state c \<noteq> Closed \<and> closing c | None \<Rightarrow> False)"



subsection \<open>Session start (\<open>startSession\<close>, lines 87 to 185, and its callbacks)\<close>

text \<open>
  What the environment answers to the calls of \<open>startSession\<close>, in the order of the
  calls: \<open>getUserMedia\<close> (the tracks of the stream, or a rejection), the two
  \<open>AudioContext\<close> constructors, the \<open>GoogleGenAI\<close> constructor and \<open>ai.live.connect\<close>
  (the promise it returns, which is stored without being awaited, or an exception
  thrown by the call itself).
\<close>

record start_env =
  getUserMedia :: "js_error + nat list"
  newInputContext :: "js_error + AudioContext"
  newOutputContext :: "js_error + AudioContext"
  newGoogleGenAI :: "js_error + unit"
  connect :: "js_error + nat"

fun message :: "js_error \<Rightarrow> string" where
  "message InvalidStateError = ''InvalidStateError''"
| "message NotAllowedError = ''Permission denied''"
| "message DecodeError = ''DecodeError''"
| "message TypeError = ''TypeError''"
| "message (OtherError m) = m"

text \<open>The \<open>catch\<close> block, lines 181 to 184.\<close>

definition start_failed :: "js_error \<Rightarrow> live_chat \<Rightarrow> live_chat" where
  "start_failed e st =
     st\<lparr>error := Some (''Failed to start session: '' @ message e), isConnecting := False\<rparr>"

definition startSession :: "start_env \<Rightarrow> live_chat \<Rightarrow> live_chat" where
  "startSession env st =
     (let st0 = st\<lparr>error := None, isConnecting := True, transcriptionHistory := []\<rparr> in
      case getUserMedia env of
        Inl e \<Rightarrow> start_failed e st0
      | Inr tracks \<Rightarrow>
          (let st1 = st0\<lparr>streamRef := Some tracks\<rparr> in
           case newInputContext env of
             Inl e \<Rightarrow> start_failed e st1
           | Inr ic \<Rightarrow>
               (let st2 = st1\<lparr>inputAudioContextRef := Some ic\<rparr> in
                case newOutputContext env of
                  Inl e \<Rightarrow> start_failed e st2
                | Inr oc \<Rightarrow>
                    (let st3 = st2\<lparr>outputAudioContextRef := Some oc\<rparr> in
                     case newGoogleGenAI env of
                       Inl e \<Rightarrow> start_failed e st3
                     | Inr _ \<Rightarrow>
                         (case connect env of
                            Inl e \<Rightarrow> start_failed e st3
                          | Inr p \<Rightarrow> st3\<lparr>sessionPromiseRef := Some p\<rparr>)))))"

text \<open>
  \<open>onopen\<close>, lines 103 to 124; \<open>src\<close> and \<open>proc\<close> are the identities of the two nodes
  it creates.
\<close>

definition onopen :: "nat \<Rightarrow> nat \<Rightarrow> live_chat \<Rightarrow> live_chat" where
  "onopen src proc st =
     (let st1 = st\<lparr>isConnecting := False, isSessionActive := True\<rparr> in
      if streamRef st1 = None \<or> inputAudioContextRef st1 = None then st1
      else st1\<lparr>mediaStreamSourceRef := Some src, scriptProcessorRef := Some proc\<rparr>)"

text \<open>\<open>onerror\<close>, lines 166 to 169, and \<open>onclose\<close>, lines 170 to 172.\<close>

definition onerror :: "js_error \<Rightarrow> live_chat \<Rightarrow> live_chat" where
  "onerror e st = stopSession (st\<lparr>error := Some (''Session error: '' @ message e)\<rparr>)"


text \<open>A state holds a stream when a track of the stream it refers to was not stopped.\<close>

definition holds_stream :: "live_chat \<Rightarrow> bool" where
  "holds_stream st =
     (case streamRef st of
        Some tracks \<Rightarrow> list_ex (\<lambda>t. TrackStop t \<notin> set (effects st)) tracks
      | None \<Rightarrow> False)"

subsection \<open>The transcript (\<open>onmessage\<close>, lines 145 to 164)\<close>

text \<open>
  \<open>String.prototype.trim\<close> removes the white space and line terminator code units of
  ECMAScript from both ends.
\<close>

definition is_white_space :: "nat \<Rightarrow> bool" where
  "is_white_space c =
     (c \<in> {0x9, 0xA, 0xB, 0xC, 0xD, 0x20, 0xA0, 0x1680, 0x2028, 0x2029, 0x202F, 0x205F,
            0x3000, 0xFEFF} \<or> (0x2000 \<le> c \<and> c \<le> 0x200A))"

definition trim :: "jsstring \<Rightarrow> jsstring" where
  "trim s = rev (dropWhile is_white_space (rev (dropWhile is_white_space s)))"

text \<open>Lines 152 to 163; a string is truthy when it is not empty.\<close>

definition turn_complete :: "live_chat \<Rightarrow> live_chat" where
  "turn_complete st =
     (let fullInput = currentInputTranscriptionRef st;
          fullOutput = currentOutputTranscriptionRef st
      in st\<lparr> transcriptionHistory :=
                transcriptionHistory st
                @ (if trim fullInput \<noteq> [] then [\<lparr>speaker = User, entry_text = fullInput\<rparr>] else [])
                @ (if trim fullOutput \<noteq> [] then [\<lparr>speaker = Model, entry_text = fullOutput\<rparr>] else []),
              currentInputTranscriptionRef := [],
              currentOutputTranscriptionRef := [] \<rparr>)"

subsection \<open>The message handler (\<open>onmessage\<close>, lines 125 to 165)\<close>

text \<open>
  Of a \<open>LiveServerMessage\<close> the handler reads, all through \<open>message.serverContent?.\<close>, the
  model turn, the \<open>interrupted\<close> flag, the two transcriptions and the \<open>turnComplete\<close>
  flag; a message without \<open>serverContent\<close> is one without any of them. A model turn
  may lack its \<open>parts\<close>; of a part the handler reads \<open>inlineData?.data\<close>. Of a
  transcription it reads \<open>text\<close>, which the transcription may lack.
\<close>

record Transcription =
  transcription_text :: "jsstring option"

record Part =
  inlineData :: "jsstring option"

record Content =
  parts :: "Part list option"

record LiveServerMessage =
  modelTurn :: "Content option"
  interrupted :: bool
  outputTranscription :: "Transcription option"
  inputTranscription :: "Transcription option"
  turnComplete :: bool

datatype outcome = Fulfilled | Rejected js_error

text \<open>
  Line 126: \<open>message.serverContent?.modelTurn?.parts[0]?.inlineData?.data\<close>. Without a
  model turn the chain yields \<open>undefined\<close>. With one, \<open>parts[0]\<close> is read with no \<open>?.\<close>
  before the index: when the turn has no \<open>parts\<close> this throws a \<open>TypeError\<close>; an empty
  \<open>parts\<close> gives \<open>undefined\<close>.
\<close>

definition base64EncodedAudioString :: "LiveServerMessage \<Rightarrow> js_error + jsstring option" where
  "base64EncodedAudioString m =
     (case modelTurn m of
        None \<Rightarrow> Inr None
      | Some turn \<Rightarrow>
          (case parts turn of
             None \<Rightarrow> Inl TypeError
           | Some [] \<Rightarrow> Inr None
           | Some (p # ps) \<Rightarrow> Inr (inlineData p)))"

text \<open>Line 127: the payload is a non-empty string and the playback context ref is set.\<close>

definition has_audio :: "LiveServerMessage \<Rightarrow> live_chat \<Rightarrow> bool" where
  "has_audio m st =
     (case base64EncodedAudioString m of
        Inr (Some d) \<Rightarrow> d \<noteq> [] \<and> outputAudioContextRef st \<noteq> None
      | _ \<Rightarrow> False)"

text \<open>
  Lines 146 and 149: \<open>buffer += transcription.text\<close>. The string concatenation appends
  the text, and the string \<open>undefined\<close> when the transcription has no text.
\<close>

definition appended :: "Transcription \<Rightarrow> jsstring" where
  "appended t = (case transcription_text t of Some s \<Rightarrow> s | None \<Rightarrow> utf16 ''undefined'')"

text \<open>Lines 139 to 164, the part of the handler after the audio.\<close>

definition onmessage_rest :: "LiveServerMessage \<Rightarrow> live_chat \<Rightarrow> live_chat" where
  "onmessage_rest m st =
     (let st1 = (if interrupted m then flush st else st);
          st2 = (case outputTranscription m of
                   Some t \<Rightarrow> st1\<lparr>currentOutputTranscriptionRef :=
                                   currentOutputTranscriptionRef st1 @ appended t\<rparr>
                 | None \<Rightarrow> st1);
          st3 = (case inputTranscription m of
                   Some t \<Rightarrow> st2\<lparr>currentInputTranscriptionRef :=
                                   currentInputTranscriptionRef st2 @ appended t\<rparr>
                 | None \<Rightarrow> st2)
      in if turnComplete m then turn_complete st3 else st3)"

text \<open>
  The handler is an \<open>async\<close> function that awaits \<open>decodeAudioData(decode(payload), ...)\<close>
  of \<open>../utils/audioUtils\<close>. \<open>onmessage_begin\<close> is what runs up to the \<open>await\<close> (lines 127
  to 129, \<open>now\<close> being the context's \<open>currentTime\<close>) for a message whose payload was
  read, \<open>onmessage_resume\<close> what runs when the awaited promise has settled with \<open>r\<close>: a
  rejection rejects the handler's own promise and nothing after line 129 runs; a buffer
  is scheduled (the context ref is dereferenced again, not tested) and the rest of the
  handler follows.
\<close>

definition onmessage_begin :: "double \<Rightarrow> LiveServerMessage \<Rightarrow> live_chat \<Rightarrow> live_chat" where
  "onmessage_begin now m st = (if has_audio m st then schedule_cursor now st else st)"

definition onmessage_resume ::
  "js_error + AudioBuffer \<Rightarrow> LiveServerMessage \<Rightarrow> live_chat \<Rightarrow> outcome \<times> live_chat" where
  "onmessage_resume r m st =
     (case r of
        Inl e \<Rightarrow> (Rejected e, st)
      | Inr buf \<Rightarrow>
          (case outputAudioContextRef st of
             None \<Rightarrow> (Rejected TypeError, st)
           | Some _ \<Rightarrow> (Fulfilled, onmessage_rest m (schedule_source buf st))))"

text \<open>
  The whole handler when nothing else runs while the decode is awaited. \<open>dec\<close> stands for
  the composition \<open>decodeAudioData \<circ> decode\<close> at 24000 Hz, one channel. An exception at
  line 126 rejects the handler's promise before anything else runs.
\<close>

definition onmessage ::
  "(jsstring \<Rightarrow> js_error + AudioBuffer) \<Rightarrow> double \<Rightarrow> LiveServerMessage \<Rightarrow> live_chat
     \<Rightarrow> outcome \<times> live_chat" where
  "onmessage dec now m st =
     (case base64EncodedAudioString m of
        Inl e \<Rightarrow> (Rejected e, st)
      | Inr None \<Rightarrow> (Fulfilled, onmessage_rest m st)
      | Inr (Some d) \<Rightarrow>
          if has_audio m st then onmessage_resume (dec d) m (onmessage_begin now m st)
          else (Fulfilled, onmessage_rest m st))"

text \<open>A sequence of messages, each with the clock value its handler reads.\<close>

fun onmessages ::
  "(jsstring \<Rightarrow> js_error + AudioBuffer) \<Rightarrow> (double \<times> LiveServerMessage) list \<Rightarrow> live_chat
     \<Rightarrow> live_chat" where
  "onmessages dec [] st = st"
| "onmessages dec (e # es) st = onmessages dec es (snd (onmessage dec (fst e) (snd e) st))"

subsection \<open>The outbound encoder (\<open>createBlob\<close>, lines 13 to 24)\<close>

text \<open>
  Storing a number into an \<open>Int16Array\<close> applies \<open>ToInt16\<close>: the number is truncated
  towards zero and reduced modulo \<open>2^16\<close> into the signed range. The samples of a
  \<open>Float32Array\<close> in \<open>[-1, 1]\<close> are finite, so no \<open>NaN\<close> or infinity reaches the store.
\<close>

definition js_trunc :: "real \<Rightarrow> int" where
  "js_trunc x = (if x < 0 then \<lceil>x\<rceil> else \<lfloor>x\<rfloor>)"

definition to_int16 :: "real \<Rightarrow> 16 word" where
  "to_int16 x = word_of_int (js_trunc x)"

definition to_int32 :: "real \<Rightarrow> 32 word" where
  "to_int32 x = word_of_int (js_trunc x)"

text \<open>The loop of lines 16 to 18: \<open>int16[i] = data[i] * 32768\<close>.\<close>

definition createBlob_sample :: "real \<Rightarrow> 16 word" where
  "createBlob_sample x = to_int16 (x * 32768)"

definition createBlob_int16 :: "real list \<Rightarrow> 16 word list" where
  "createBlob_int16 samples = map createBlob_sample samples"

text \<open>
  \<open>new Uint8Array(int16.buffer)\<close> reads the same memory as bytes, in the byte order of
  the host: low byte first on the little-endian hosts browsers run on.
\<close>

definition int16_bytes :: "16 word \<Rightarrow> 8 word list" where
  "int16_bytes w = [ucast w, ucast (drop_bit 8 w)]"

definition frame_bytes :: "real list \<Rightarrow> 8 word list" where
  "frame_bytes samples = concat (map int16_bytes (createBlob_int16 samples))"

record Blob =
  data :: jsstring
  mimeType :: string

text \<open>
  \<open>encode\<close> (base64, of \<open>../utils/audioUtils\<close>) is a parameter of the model.
\<close>

definition createBlob :: "(8 word list \<Rightarrow> jsstring) \<Rightarrow> real list \<Rightarrow> Blob" where
  "createBlob encode samples =
     \<lparr> data = encode (frame_bytes samples), mimeType = ''audio/pcm;rate=16000'' \<rparr>"

subsection \<open>The WAV writer of the text-to-speech component (\<open>bufferToWave\<close>, lines 94 to 102)\<close>

text \<open>
  Lines 96 to 98: clamp to \<open>[-1, 1]\<close>, scale by 32768 below \<open>-0.5\<close> and by 32767
  otherwise, truncate with \<open>|0\<close> (\<open>ToInt32\<close>), store with \<open>setInt16\<close> (\<open>ToInt16\<close>).
\<close>

definition wave_sample :: "real \<Rightarrow> 16 word" where
  "wave_sample x =
     (let sample = max (- 1) (min 1 x);
          sample' = sint (to_int32 (if 0.5 + sample < 0 then sample * 32768 else sample * 32767))
      in word_of_int sample')"

subsection \<open>The inbound decoder\<close>

text \<open>
  Modelled from the spec: \<open>decodeAudioData\<close> of \<open>../utils/audioUtils\<close> is not among the
  sources. The spec (4.1 and 6) has it reverse the outbound transform: the payload is
  16-bit signed little-endian PCM, decoded to floating-point samples normalised to
  \<open>[-1, 1]\<close>, that is each 16-bit integer divided by 32768. \<open>decode_samples\<close> does this
  pair of bytes by pair; a payload with an odd number of bytes is malformed.
\<close>

fun decode_samples :: "8 word list \<Rightarrow> js_error + real list" where
  "decode_samples [] = Inr []"
| "decode_samples [b] = Inl DecodeError"
| "decode_samples (lo # hi # bs) =
     (case decode_samples bs of
        Inl e \<Rightarrow> Inl e
      | Inr xs \<Rightarrow>
          Inr (real_of_int (sint (or (ucast lo) (push_bit 8 (ucast hi)) :: 16 word)) / 32768 # xs))"

text \<open>
  Modelled from the spec: \<open>decodeInbound\<close> (spec 4.1) has no error conditions beyond a
  malformed or empty byte payload, which fails with a \<open>DecodeError\<close>.
\<close>

definition decodeInbound :: "8 word list \<Rightarrow> js_error + real list" where
  "decodeInbound bytes = (if bytes = [] then Inl DecodeError else decode_samples bytes)"

subsection \<open>Closed forms and example states\<close>

text \<open>
  What \<open>stopSession\<close> performs in a state, in the order of its statements: it stops the
  tracks of the stream, disconnects the two sampler nodes, closes each context that is
  open (and has the \<open>close()\<close> of a context rejected whose close is in flight), and stops
  every source of the set.
\<close>

definition context_teardown :: "effect \<Rightarrow> AudioContext option \<Rightarrow> effect list" where
  "context_teardown close r =
     (if holds_context r then [close]
      else if in_flight r then [UnhandledRejection InvalidStateError]
      else [])"

definition teardown :: "live_chat \<Rightarrow> effect list" where
  "teardown st =
     (case streamRef st of Some tracks \<Rightarrow> map TrackStop tracks | None \<Rightarrow> [])
     @ (case scriptProcessorRef st of Some n \<Rightarrow> [ProcessorDisconnect n] | None \<Rightarrow> [])
     @ (case mediaStreamSourceRef st of Some n \<Rightarrow> [StreamSourceDisconnect n] | None \<Rightarrow> [])
     @ context_teardown InputContextClose (inputAudioContextRef st)
     @ context_teardown OutputContextClose (outputAudioContextRef st)
     @ map (\<lambda>s. SourceStop (src_id s)) (audioSourcesRef st)"

definition context_closed :: "AudioContext option \<Rightarrow> AudioContext option" where
  "context_closed r =
     (case r of
        Some c \<Rightarrow>
          Some (if ctx_state c = Closed \<or> closing c then c
                else if closes_at_call c then c\<lparr>ctx_state := Closed\<rparr>
                else c\<lparr>closing := True\<rparr>)
      | None \<Rightarrow> None)"

definition released :: "live_chat \<Rightarrow> live_chat" where
  "released st =
     st\<lparr> isConnecting := False, isSessionActive := False, sessionPromiseRef := None,
         inputAudioContextRef := context_closed (inputAudioContextRef st),
         outputAudioContextRef := context_closed (outputAudioContextRef st),
         scriptProcessorRef := None, mediaStreamSourceRef := None, streamRef := None,
         nextStartTimeRef := 0, audioSourcesRef := [],
         closeOnResolve :=
           closeOnResolve st @ (case sessionPromiseRef st of Some p \<Rightarrow> [p] | None \<Rightarrow> []),
         effects := effects st @ teardown st \<rparr>"

text \<open>
  A session that started without failure in a browser whose \<open>state\<close> getter reflects the
  \<open>close()\<close> call: when still connecting, and when opened with two segments pending;
  the same in a browser that changes the \<open>state\<close> in a queued task.
\<close>

definition env_ok :: start_env where
  "env_ok =
     \<lparr> getUserMedia = Inr [7],
       newInputContext = Inr \<lparr>ctx_state = Running, closing = False, closes_at_call = True\<rparr>,
       newOutputContext = Inr \<lparr>ctx_state = Running, closing = False, closes_at_call = True\<rparr>,
       newGoogleGenAI = Inr (), connect = Inr 3 \<rparr>"

definition env_task :: start_env where
  "env_task =
     \<lparr> getUserMedia = Inr [7],
       newInputContext = Inr \<lparr>ctx_state = Running, closing = False, closes_at_call = False\<rparr>,
       newOutputContext = Inr \<lparr>ctx_state = Running, closing = False, closes_at_call = False\<rparr>,
       newGoogleGenAI = Inr (), connect = Inr 3 \<rparr>"

definition connecting_session :: live_chat where
  "connecting_session = startSession env_ok initial"

definition active_session :: live_chat where
  "active_session =
     schedule_all [(dbl 2 (- 1), \<lparr>duration = dbl 4 (- 1)\<rparr>), (dbl 4 (- 1), \<lparr>duration = dbl 1 (- 1)\<rparr>)]
       (onopen 4 5 (startSession env_ok initial))"

text \<open>
  The two accumulation buffers once the texts of a message have been appended to them
  (lines 145 to 150), as the turn completion of that same message reads them.
\<close>

definition pending_input :: "LiveServerMessage \<Rightarrow> live_chat \<Rightarrow> jsstring" where
  "pending_input m st =
     currentInputTranscriptionRef st
     @ (case inputTranscription m of Some t \<Rightarrow> appended t | None \<Rightarrow> [])"

definition pending_output :: "LiveServerMessage \<Rightarrow> live_chat \<Rightarrow> jsstring" where
  "pending_output m st =
     currentOutputTranscriptionRef st
     @ (case outputTranscription m of Some t \<Rightarrow> appended t | None \<Rightarrow> [])"

text \<open>
  The handler of a message runs to its end: the read of line 126 does not throw and,
  when the message has audio to schedule, the decode succeeds.
\<close>

definition completes ::
  "(jsstring \<Rightarrow> js_error + AudioBuffer) \<Rightarrow> LiveServerMessage \<Rightarrow> live_chat \<Rightarrow> bool" where
  "completes dec m st =
     (case base64EncodedAudioString m of
        Inl e \<Rightarrow> False
      | Inr None \<Rightarrow> True
      | Inr (Some d) \<Rightarrow>
          \<not> has_audio m st \<or> (case dec d of Inr _ \<Rightarrow> True | Inl _ \<Rightarrow> False))"

text \<open>A message whose audio payload is read, is not empty and decodes.\<close>

definition valid_frame ::
  "(jsstring \<Rightarrow> js_error + AudioBuffer) \<Rightarrow> LiveServerMessage \<Rightarrow> bool" where
  "valid_frame dec m =
     (case base64EncodedAudioString m of
        Inr (Some d) \<Rightarrow> d \<noteq> [] \<and> (case dec d of Inr _ \<Rightarrow> True | Inl _ \<Rightarrow> False)
      | _ \<Rightarrow> False)"

text \<open>
  Example inputs: a decoder that rejects a payload holding the character \<open>!\<close> (not in the
  base64 alphabet), an encoder that writes each byte as one code unit, a message with
  nothing in it, a message whose model turn has one part with the payload \<open>d\<close>, and the
  answers of an environment in which the playback context cannot be created after the
  microphone stream and the capture context have been.
\<close>

definition example_dec :: "jsstring \<Rightarrow> js_error + AudioBuffer" where
  "example_dec d =
     (if 33 \<in> set d then Inl DecodeError else Inr \<lparr>duration = dbl (int (length d)) (- 2)\<rparr>)"

definition example_encode :: "8 word list \<Rightarrow> jsstring" where
  "example_encode bytes = map unat bytes"

definition no_content :: LiveServerMessage where
  "no_content =
     \<lparr> modelTurn = None, interrupted = False, outputTranscription = None,
       inputTranscription = None, turnComplete = False \<rparr>"

definition audio_message :: "jsstring \<Rightarrow> LiveServerMessage" where
  "audio_message d = no_content\<lparr>modelTurn := Some \<lparr>parts = Some [\<lparr>inlineData = Some d\<rparr>]\<rparr>\<rparr>"


definition env_partial :: start_env where
  "env_partial = env_ok\<lparr>newOutputContext := Inl (OtherError ''NotSupportedError'')\<rparr>"

section \<open>Properties of the double addition\<close>

lemma fits53_round53_id: "fits53 k \<Longrightarrow> round53 k = k"
proof -
  assume f: "fits53 k"
  let ?s = "nat (bitlen \<bar>k\<bar> - 53)"
  have d: "2 ^ ?s dvd \<bar>k\<bar>" using f by (simp add: fits53_def)
  then have r: "\<bar>k\<bar> mod 2 ^ ?s = 0" by (simp add: mod_eq_0_iff_dvd)
  have q: "\<bar>k\<bar> div 2 ^ ?s * 2 ^ ?s = \<bar>k\<bar>" using d by simp
  show ?thesis
    unfolding round53_def Let_def r using q by (simp add: mult_sgn_abs)
qed

lemma fits53_minus [simp]: "fits53 (- k) = fits53 k"
  by (simp add: fits53_def)

lemma round53_minus: "round53 (- k) = - round53 k"
  by (simp add: round53_def Let_def sgn_minus)

lemma bitlen_mono: "a \<le> b \<Longrightarrow> bitlen a \<le> bitlen b"
proof (cases "0 < b")
  case True
  assume "a \<le> b"
  then have "a < 2 ^ nat (bitlen b)"
    using bitlen_bounds [OF True] by linarith
  then show ?thesis
    by (simp add: bitlen_le_iff_power bitlen_nonneg)
next
  case False
  assume "a \<le> b"
  with False have "bitlen a = 0" "bitlen b = 0"
    by (simp_all add: bitlen_eq_zero_iff)
  then show ?thesis by simp
qed

lemma floor_multiple:
  fixes a p :: int
  assumes "0 < p"
  shows "a div p * p \<le> a" and "a < (a div p + 1) * p"
proof -
  have e: "a div p * p + a mod p = a" by simp
  have m: "0 \<le> a mod p" "a mod p < p" using assms by simp_all
  show "a div p * p \<le> a" using e m(1) by linarith
  have "(a div p + 1) * p = a div p * p + p" by (simp add: algebra_simps)
  then show "a < (a div p + 1) * p" using e m(2) by linarith
qed

lemma multiple_le_floor:
  fixes a b p :: int
  assumes "0 < p" "p dvd b" "b \<le> a"
  shows "b \<le> a div p * p"
proof -
  obtain c where c: "b = c * p" using assms(2) by (auto simp: dvd_def mult.commute)
  have "c * p < (a div p + 1) * p"
    using assms(3) floor_multiple(2) [OF assms(1), of a] c by linarith
  then have "c < a div p + 1" using assms(1) by (simp add: mult_less_cancel_right)
  then have "c * p \<le> a div p * p" using assms(1) by (simp add: mult_le_cancel_right)
  then show ?thesis by (simp add: c)
qed

lemma multiple_ge_ceiling:
  fixes a b p :: int
  assumes "0 < p" "p dvd b" "a \<le> b" "a mod p \<noteq> 0"
  shows "(a div p + 1) * p \<le> b"
proof -
  obtain c where c: "b = c * p" using assms(2) by (auto simp: dvd_def mult.commute)
  have e: "a div p * p + a mod p = a" by simp
  have "0 \<le> a mod p" using assms(1) by simp
  with assms(4) have "0 < a mod p" by linarith
  then have "a div p * p < c * p" using e assms(3) c by linarith
  then have "a div p < c" using assms(1) by (simp add: mult_less_cancel_right)
  then have "(a div p + 1) * p \<le> c * p" using assms(1) by (simp add: mult_le_cancel_right)
  then show ?thesis by (simp add: c)
qed

text \<open>rounding of a non-negative number lies between the multiples around it\<close>

lemma round53_between:
  assumes "0 \<le> k"
  defines "p \<equiv> 2 ^ nat (bitlen k - 53)"
  shows "k div p * p \<le> round53 k"
    and "round53 k \<le> (if k mod p = 0 then k else (k div p + 1) * p)"
proof -
  have p: "0 < p" by (simp add: p_def)
  have e: "k div p * p + k mod p = k" by simp
  have a: "\<bar>k\<bar> = k" using assms(1) by simp
  show "k div p * p \<le> round53 k"
  proof (cases "k = 0")
    case True
    then show ?thesis by (simp add: round53_def)
  next
    case False
    with assms(1) have "sgn k = 1" by simp
    then show ?thesis
      using p unfolding round53_def Let_def a p_def [symmetric]
      by (auto simp: mult_le_cancel_right)
  qed
  show "round53 k \<le> (if k mod p = 0 then k else (k div p + 1) * p)"
  proof (cases "k = 0")
    case True
    then show ?thesis by (simp add: round53_def)
  next
    case False
    with assms(1) have s: "sgn k = 1" by simp
    show ?thesis
    proof (cases "k mod p = 0")
      case True
      then have "round53 k = k div p * p"
        using p s unfolding round53_def Let_def a p_def [symmetric] by simp
      then show ?thesis using True e by simp
    next
      case False
      then show ?thesis
        using p s unfolding round53_def Let_def a p_def [symmetric]
        by (auto simp: mult_le_cancel_right)
    qed
  qed
qed

lemma quotient_bounds:
  assumes "0 < a" "53 < bitlen a"
  defines "p \<equiv> 2 ^ nat (bitlen a - 53)"
  shows "2 ^ 52 \<le> a div p" and "a div p < 2 ^ 53"
proof -
  have p: "(0::int) < p" by (simp add: p_def)
  have n: "nat (bitlen a) = 53 + nat (bitlen a - 53)" "nat (bitlen a - 1) = 52 + nat (bitlen a - 53)"
    using assms(2) by linarith+
  have hi: "a < 2 ^ 53 * p" and lo: "2 ^ 52 * p \<le> a"
    using bitlen_bounds [OF assms(1)] unfolding n p_def by (simp_all add: power_add)
  have "a div p * p < 2 ^ 53 * p"
    using floor_multiple(1) [OF p, of a] hi by linarith
  then show "a div p < 2 ^ 53" using p by (simp add: mult_less_cancel_right)
  have "2 ^ 52 * p < (a div p + 1) * p"
    using floor_multiple(2) [OF p, of a] lo by linarith
  then have "2 ^ 52 < a div p + 1" using p by (simp add: mult_less_cancel_right)
  then show "2 ^ 52 \<le> a div p" by simp
qed

lemma fits53_small: "bitlen \<bar>k\<bar> \<le> 53 \<Longrightarrow> fits53 k"
  by (simp add: fits53_def)

lemma fits53_multiple:
  assumes "0 < q" "q \<le> 2 ^ 53"
  shows "fits53 (q * 2 ^ s)"
proof (cases "q = 2 ^ 53")
  case True
  have "bitlen (q * 2 ^ s) = 54 + int s"
    unfolding True using bitlen_twopow_add_eq [of 0 53] by (simp add: bitlen_pow2)
  then have "nat (bitlen \<bar>q * 2 ^ s\<bar> - 53) = Suc s"
    using assms(1) by (simp add: abs_mult)
  then show ?thesis
    unfolding fits53_def True by (simp add: power_add [symmetric] del: power_Suc)
      (simp add: True le_imp_power_dvd)
next
  case False
  with assms(2) have "q < 2 ^ 53" by simp
  then have "bitlen q \<le> 53" by (simp add: bitlen_le_iff_power)
  then have "nat (bitlen \<bar>q * 2 ^ s\<bar> - 53) \<le> s"
    using assms(1) by (simp add: abs_mult bitlen_pow2)
  then have "(2::int) ^ nat (bitlen \<bar>q * 2 ^ s\<bar> - 53) dvd 2 ^ s"
    by (rule le_imp_power_dvd)
  then show ?thesis
    unfolding fits53_def by (rule dvd_mult)
qed

lemma round53_small: "bitlen \<bar>k\<bar> \<le> 53 \<Longrightarrow> round53 k = k"
  by (simp add: fits53_round53_id fits53_small)

lemma fits53_round53_pos:
  assumes "0 < k"
  shows "fits53 (round53 k)"
proof (cases "bitlen k \<le> 53")
  case True
  then show ?thesis using assms by (simp add: round53_small fits53_small)
next
  case False
  define s where "s = nat (bitlen k - 53)"
  define q where "q = k div 2 ^ s"
  have q: "2 ^ 52 \<le> q" "q < 2 ^ 53"
    using quotient_bounds [OF assms] False unfolding q_def s_def by simp_all
  have "round53 k = q * 2 ^ s \<or> round53 k = (q + 1) * 2 ^ s"
    using assms unfolding round53_def Let_def q_def s_def by simp
  then show ?thesis
    using q fits53_multiple [of q s] fits53_multiple [of "q + 1" s] by auto
qed

lemma fits53_round53: "fits53 (round53 k)"
proof -
  consider "0 < k" | "k = 0" | "0 < - k" by linarith
  then show ?thesis
  proof cases
    case 1
    then show ?thesis by (rule fits53_round53_pos)
  next
    case 2
    then show ?thesis by (simp add: round53_def fits53_def)
  next
    case 3
    then have "fits53 (round53 (- k))" by (rule fits53_round53_pos)
    then show ?thesis by (simp add: round53_minus)
  qed
qed

lemma fits53_le_round53_pos:
  assumes "fits53 b" "0 \<le> b" "b \<le> k"
  shows "b \<le> round53 k"
proof (cases "bitlen k \<le> 53")
  case True
  then show ?thesis using assms by (simp add: round53_small)
next
  case False
  have k: "0 < k"
    using False by (cases "0 < k") (simp_all add: bitlen_eq_zero_iff [THEN iffD2])
  define s where "s = nat (bitlen k - 53)"
  have floor: "k div 2 ^ s * 2 ^ s \<le> round53 k"
    using round53_between(1) [of k] k unfolding s_def by simp
  have "b \<le> k div 2 ^ s * 2 ^ s"
  proof (cases "bitlen b = bitlen k")
    case True
    have "2 ^ s dvd b"
      using assms(1,2) unfolding fits53_def s_def True [symmetric] by simp
    then show ?thesis
      using assms(3) by (intro multiple_le_floor) simp_all
  next
    case ne: False
    have "bitlen b \<le> bitlen k" using assms(3) by (rule bitlen_mono)
    with ne have less: "bitlen b \<le> bitlen k - 1" by simp
    have "b < 2 ^ nat (bitlen k - 1)"
      using less bitlen_le_iff_power [of b "bitlen k - 1"] by simp
    also have "nat (bitlen k - 1) = 52 + s"
      using False unfolding s_def by linarith
    also have "(2::int) ^ (52 + s) = 2 ^ 52 * 2 ^ s" by (simp add: power_add)
    also have "\<dots> \<le> k div 2 ^ s * 2 ^ s"
      using quotient_bounds(1) [OF k] False unfolding s_def by (simp add: mult_le_cancel_right)
    finally show ?thesis by simp
  qed
  with floor show ?thesis by linarith
qed

lemma round53_le_fits53_pos:
  assumes "fits53 b" "0 \<le> k" "k \<le> b"
  shows "round53 k \<le> b"
proof (cases "k mod 2 ^ nat (bitlen k - 53) = 0")
  case True
  then have "round53 k \<le> k"
    using round53_between(2) [OF assms(2)] by simp
  with assms(3) show ?thesis by linarith
next
  case False
  define s where "s = nat (bitlen k - 53)"
  have up: "round53 k \<le> (k div 2 ^ s + 1) * 2 ^ s"
    using round53_between(2) [OF assms(2)] False unfolding s_def by simp
  have "bitlen k \<le> bitlen b" using assms(3) by (rule bitlen_mono)
  then have "s \<le> nat (bitlen \<bar>b\<bar> - 53)"
    using assms(2,3) unfolding s_def by simp
  then have "(2::int) ^ s dvd 2 ^ nat (bitlen \<bar>b\<bar> - 53)"
    by (rule le_imp_power_dvd)
  then have "2 ^ s dvd b"
    using assms(1) unfolding fits53_def by (rule dvd_trans)
  then have "(k div 2 ^ s + 1) * 2 ^ s \<le> b"
    using assms(3) False unfolding s_def by (intro multiple_ge_ceiling) simp_all
  with up show ?thesis by linarith
qed

lemma round53_nonneg: "0 \<le> k \<Longrightarrow> 0 \<le> round53 k"
  using fits53_le_round53_pos [of 0 k] by (simp add: fits53_def)

text \<open>a representable number below (above) a number stays below (above) its rounding\<close>

lemma fits53_le_round53:
  assumes "fits53 b" "b \<le> k"
  shows "b \<le> round53 k"
proof (cases "0 \<le> k")
  case True
  show ?thesis
  proof (cases "0 \<le> b")
    case True
    then show ?thesis using assms by (intro fits53_le_round53_pos)
  next
    case False
    then show ?thesis using round53_nonneg [OF True] by linarith
  qed
next
  case False
  then have "round53 (- k) \<le> - b"
    using assms by (intro round53_le_fits53_pos) simp_all
  then show ?thesis by (simp add: round53_minus)
qed

lemma round53_le_fits53:
  assumes "fits53 b" "k \<le> b"
  shows "round53 k \<le> b"
  using fits53_le_round53 [of "- b" "- k"] assms by (simp add: round53_minus)

lemma fits53_Rep: "fits53 (Rep_double x)"
  using Rep_double [of x] by (auto simp: fits53_round53)

lemma Rep_plus: "Rep_double (x + y) = round53 (Rep_double x + Rep_double y)"
  by (rule plus_double.rep_eq)

text \<open>Adding a number that is not negative does not decrease a double, rounding included.\<close>

lemma le_plus_double:
  fixes x d :: double
  assumes "0 \<le> d"
  shows "x \<le> x + d"
proof -
  have "0 \<le> Rep_double d"
    using assms by (simp add: less_eq_double.rep_eq zero_double.rep_eq)
  then have "Rep_double x \<le> round53 (Rep_double x + Rep_double d)"
    by (intro fits53_le_round53 fits53_Rep) simp
  then show ?thesis
    by (simp add: less_eq_double.rep_eq Rep_plus)
qed

lemma zero_plus_double: "(0::double) + d = d"
  by (simp add: Rep_double_inject [symmetric] Rep_plus zero_double.rep_eq
      fits53_round53_id fits53_Rep)

text \<open>Doubles with a small mantissa and a common exponent add exactly.\<close>

lemma fits53_scaled: "\<bar>m\<bar> < 2 ^ 53 \<Longrightarrow> fits53 (m * 2 ^ n)"
proof (cases "m = 0")
  case True
  then show ?thesis by (simp add: fits53_def)
next
  case False
  assume "\<bar>m\<bar> < 2 ^ 53"
  with False have f: "fits53 (\<bar>m\<bar> * 2 ^ n)"
    by (intro fits53_multiple) simp_all
  show ?thesis
  proof (cases "0 \<le> m")
    case True
    with f show ?thesis by simp
  next
    case False
    then have "\<bar>m\<bar> * 2 ^ n = - (m * 2 ^ n)" by simp
    with f have "fits53 (- (m * 2 ^ n))" by simp
    then show ?thesis by (simp only: fits53_minus)
  qed
qed

lemma Rep_dbl: "\<bar>m\<bar> < 2 ^ 53 \<Longrightarrow> Rep_double (dbl m e) = m * 2 ^ nat (1074 + e)"
  by (simp add: dbl.rep_eq fits53_round53_id fits53_scaled)

lemma dbl_plus:
  assumes "\<bar>m\<bar> < 2 ^ 53" "\<bar>n\<bar> < 2 ^ 53" "\<bar>m + n\<bar> < 2 ^ 53"
  shows "dbl m e + dbl n e = dbl (m + n) e"
proof -
  have "Rep_double (dbl m e + dbl n e) = round53 ((m + n) * 2 ^ nat (1074 + e))"
    using assms by (simp add: Rep_plus Rep_dbl algebra_simps)
  then show ?thesis
    using assms(3) by (simp add: Rep_double_inject [symmetric] Rep_dbl fits53_round53_id fits53_scaled)
qed

lemma dbl_le:
  assumes "\<bar>m\<bar> < 2 ^ 53" "\<bar>n\<bar> < 2 ^ 53"
  shows "dbl m e \<le> dbl n e \<longleftrightarrow> m \<le> n"
  using assms by (simp add: less_eq_double.rep_eq Rep_dbl)

lemma dbl_less:
  assumes "\<bar>m\<bar> < 2 ^ 53" "\<bar>n\<bar> < 2 ^ 53"
  shows "dbl m e < dbl n e \<longleftrightarrow> m < n"
  using assms by (simp add: less_double.rep_eq Rep_dbl)

lemma dbl_eq:
  assumes "\<bar>m\<bar> < 2 ^ 53" "\<bar>n\<bar> < 2 ^ 53"
  shows "dbl m e = dbl n e \<longleftrightarrow> m = n"
  using assms by (simp add: Rep_double_inject [symmetric] Rep_dbl)

lemma zero_dbl: "(0::double) = dbl 0 e"
  by (simp add: Rep_double_inject [symmetric] Rep_dbl zero_double.rep_eq)

lemmas dbl_simps = dbl_plus dbl_le dbl_less dbl_eq max_def

section \<open>Properties of the scheduler\<close>

lemma started_append: "started (es @ fs) = started es @ started fs"
  by (induction es rule: started.induct) simp_all

















text \<open>
  The same holds when the handlers interleave: no order of arrivals, completed decodes
  and \<open>ended\<close> events makes two of the segments it starts overlap or moves the cursor back.
\<close>

lemma scheduler_run_prefix:
  "\<exists>new. started (effects (scheduler_run es st)) = started (effects st) @ new"
proof (induction es arbitrary: st)
  case Nil
  then show ?case by simp
next
  case (Cons e es)
  from Cons.IH [of "scheduler_step e st"] show ?case
    by (cases e)
      (auto simp: schedule_cursor_def schedule_source_def ended_def Let_def started_append)
qed

lemma started_started_by:
  "started (effects (scheduler_run es st)) = started (effects st) @ started_by es st"
  using scheduler_run_prefix [of es st] by (auto simp: started_by_def)

lemma started_by_Cons:
  "started_by (e # es) st =
     (case e of
        Decoded buf \<Rightarrow>
          [\<lparr> src_id = sourceCounter st, src_duration = duration buf,
             src_when = nextStartTimeRef st \<rparr>]
      | _ \<Rightarrow> [])
     @ started_by es (scheduler_step e st)"
proof -
  have "started (effects (scheduler_run (e # es) st)) =
          started (effects st)
          @ (case e of
               Decoded buf \<Rightarrow>
                 [\<lparr> src_id = sourceCounter st, src_duration = duration buf,
                    src_when = nextStartTimeRef st \<rparr>]
             | _ \<Rightarrow> [])
          @ started_by es (scheduler_step e st)"
    using started_started_by [of es "scheduler_step e st"]
    by (cases e)
      (simp_all add: schedule_cursor_def schedule_source_def ended_def Let_def started_append)
  then have "drop (length (started (effects st))) (started (effects (scheduler_run (e # es) st))) =
          (case e of
             Decoded buf \<Rightarrow>
               [\<lparr> src_id = sourceCounter st, src_duration = duration buf,
                  src_when = nextStartTimeRef st \<rparr>]
           | _ \<Rightarrow> [])
          @ started_by es (scheduler_step e st)"
    by (simp only: append_eq_conv_conj drop_append) simp
  then show ?thesis
    by (simp only: started_by_def [of "e # es"])
qed

lemma scheduler_run_keeps_order:
  assumes "list_all nonnegative es"
  shows "list_all (\<lambda>s. nextStartTimeRef st \<le> src_when s) (started_by es st) \<and>
         back_to_back (started_by es st) \<and>
         nextStartTimeRef st \<le> nextStartTimeRef (scheduler_run es st)"
  using assms
proof (induction es arbitrary: st)
  case Nil
  then show ?case by (simp add: started_by_def back_to_back_def)
next
  case (Cons e es)
  let ?st1 = "scheduler_step e st"
  from Cons.prems have e: "nonnegative e" and es: "list_all nonnegative es" by simp_all
  from Cons.IH [OF es, of ?st1]
  have ih: "\<forall>x \<in> set (started_by es ?st1). nextStartTimeRef ?st1 \<le> src_when x"
    and b: "back_to_back (started_by es ?st1)"
    and m: "nextStartTimeRef ?st1 \<le> nextStartTimeRef (scheduler_run es ?st1)"
    by (simp_all add: list_all_iff)
  have step: "nextStartTimeRef st \<le> nextStartTimeRef ?st1"
    using e by (cases e) (simp_all add: schedule_cursor_def schedule_source_def ended_def
        Let_def le_plus_double)
  show ?case
  proof (cases e)
    case (Decoded buf)
    let ?s = "\<lparr> src_id = sourceCounter st, src_duration = duration buf,
                src_when = nextStartTimeRef st \<rparr>"
    have end_s: "src_end ?s = nextStartTimeRef ?st1"
      by (simp add: Decoded src_end_def schedule_source_def Let_def)
    have "back_to_back (?s # started_by es ?st1)"
      using ih b unfolding back_to_back_def by (simp add: end_s)
    moreover have "\<forall>x \<in> set (?s # started_by es ?st1). nextStartTimeRef st \<le> src_when x"
      using ih step by (auto intro: order_trans)
    ultimately show ?thesis
      using step m by (auto simp: started_by_Cons Decoded list_all_iff intro: order_trans)
  next
    case (Arrived now)
    then show ?thesis
      using ih b step m by (auto simp: started_by_Cons list_all_iff intro: order_trans)
  next
    case (Ended i)
    then show ?thesis
      using ih b step m by (auto simp: started_by_Cons list_all_iff intro: order_trans)
  qed
qed

section \<open>Properties of the flush and of the teardown\<close>

lemma active_session_sources:
  "audioSourcesRef active_session =
     [\<lparr>src_id = 0, src_duration = dbl 4 (- 1), src_when = dbl 2 (- 1)\<rparr>,
      \<lparr>src_id = 1, src_duration = dbl 1 (- 1), src_when = dbl 6 (- 1)\<rparr>]"
  by (simp add: active_session_def schedule_def schedule_source_def schedule_cursor_def
      onopen_def startSession_def env_ok_def initial_def set_add_def Let_def
      zero_dbl [of "- 1"] dbl_simps)

text \<open>
  Claim C2. For every scheduler state, after \<open>flush\<close> every source that was in the set has
  been stopped (one \<open>stop\<close> call each, appended to the effects), the set is empty and the
  cursor is 0, however many segments were pending; and the handler of a message that
  carries the interruption flag, when it is not rejected, leaves the set empty and the
  cursor at 0.
\<close>

theorem flush_empties:
  "audioSourcesRef (flush st) = [] \<and> nextStartTimeRef (flush st) = 0 \<and>
   (\<forall>s \<in> set (audioSourcesRef st). src_id s \<in> stopped (effects (flush st))) \<and>
   effects (flush st) = effects st @ map (\<lambda>s. SourceStop (src_id s)) (audioSourcesRef st) \<and>
   (interrupted m \<and> fst (onmessage dec now m st) = Fulfilled \<longrightarrow>
      audioSourcesRef (snd (onmessage dec now m st)) = [] \<and>
      nextStartTimeRef (snd (onmessage dec now m st)) = 0)"
proof -
  have rest: "audioSourcesRef (onmessage_rest m x) = [] \<and> nextStartTimeRef (onmessage_rest m x) = 0"
    if "interrupted m" for x
    using that by (simp add: onmessage_rest_def turn_complete_def flush_def Let_def
        split: option.splits)
  have "audioSourcesRef (snd (onmessage dec now m st)) = [] \<and>
        nextStartTimeRef (snd (onmessage dec now m st)) = 0"
    if "interrupted m" "fst (onmessage dec now m st) = Fulfilled"
    using that rest [OF that(1)]
    by (auto simp: onmessage_def onmessage_resume_def split: sum.splits option.splits if_splits)
  then show ?thesis
    by (auto simp: flush_def stopped_def)
qed

theorem flush_empties_witness:
  "audioSourcesRef active_session =
     [\<lparr>src_id = 0, src_duration = dbl 4 (- 1), src_when = dbl 2 (- 1)\<rparr>,
      \<lparr>src_id = 1, src_duration = dbl 1 (- 1), src_when = dbl 6 (- 1)\<rparr>] \<and>
   audioSourcesRef (flush active_session) = [] \<and>
   nextStartTimeRef (flush active_session) = 0 \<and>
   0 \<in> stopped (effects (flush active_session)) \<and>
   1 \<in> stopped (effects (flush active_session)) \<and>
   interrupted (no_content\<lparr>interrupted := True\<rparr>) \<and>
   fst (onmessage example_dec (dbl 8 (- 1)) (no_content\<lparr>interrupted := True\<rparr>) active_session)
     = Fulfilled \<and>
   audioSourcesRef
     (snd (onmessage example_dec (dbl 8 (- 1)) (no_content\<lparr>interrupted := True\<rparr>)
             active_session)) = []"
proof -
  let ?m = "no_content\<lparr>interrupted := True\<rparr>"
  have i: "interrupted ?m" by (simp add: no_content_def)
  have f: "fst (onmessage example_dec (dbl 8 (- 1)) ?m active_session) = Fulfilled"
    by (simp add: onmessage_def base64EncodedAudioString_def no_content_def)
  note t = flush_empties [where st = active_session and dec = example_dec
      and now = "dbl 8 (- 1)" and m = ?m]
  have s: "0 \<in> stopped (effects (flush active_session))"
    "1 \<in> stopped (effects (flush active_session))"
    using t [THEN conjunct2, THEN conjunct2, THEN conjunct1]
    by (simp_all add: active_session_sources)
  have r: "audioSourcesRef (snd (onmessage example_dec (dbl 8 (- 1)) ?m active_session)) = []"
    using t [THEN conjunct2, THEN conjunct2, THEN conjunct2, THEN conjunct2] i f by simp
  show ?thesis
    using active_session_sources t [THEN conjunct1] t [THEN conjunct2, THEN conjunct1] s i f r
    by (intro conjI)
qed

lemma close_input_eq:
  "close_input st =
     st\<lparr> inputAudioContextRef := context_closed (inputAudioContextRef st),
         effects := effects st @ context_teardown InputContextClose (inputAudioContextRef st) \<rparr>"
  by (cases "inputAudioContextRef st")
    (auto simp: close_input_def close_context_def context_closed_def context_teardown_def
      holds_context_def in_flight_def emit_def)

lemma close_output_eq:
  "close_output st =
     st\<lparr> outputAudioContextRef := context_closed (outputAudioContextRef st),
         effects := effects st @ context_teardown OutputContextClose (outputAudioContextRef st) \<rparr>"
  by (cases "outputAudioContextRef st")
    (auto simp: close_output_def close_context_def context_closed_def context_teardown_def
      holds_context_def in_flight_def emit_def)

lemma release_session_eq:
  "release_session st =
     st\<lparr>sessionPromiseRef := None,
        closeOnResolve := closeOnResolve st @
          (case sessionPromiseRef st of Some p \<Rightarrow> [p] | None \<Rightarrow> [])\<rparr>"
  by (simp add: release_session_def split: option.splits)

lemma release_stream_eq:
  "release_stream st =
     st\<lparr>streamRef := None,
        effects := effects st @
          (case streamRef st of Some tracks \<Rightarrow> map TrackStop tracks | None \<Rightarrow> [])\<rparr>"
  by (simp add: release_stream_def emit_def split: option.splits)

lemma release_processor_eq:
  "release_processor st =
     st\<lparr>scriptProcessorRef := None,
        effects := effects st @
          (case scriptProcessorRef st of Some n \<Rightarrow> [ProcessorDisconnect n] | None \<Rightarrow> [])\<rparr>"
  by (simp add: release_processor_def emit_def split: option.splits)

lemma release_stream_source_eq:
  "release_stream_source st =
     st\<lparr>mediaStreamSourceRef := None,
        effects := effects st @
          (case mediaStreamSourceRef st of
             Some n \<Rightarrow> [StreamSourceDisconnect n] | None \<Rightarrow> [])\<rparr>"
  by (simp add: release_stream_source_def emit_def split: option.splits)

text \<open>The result of \<open>stopSession\<close> has a closed form.\<close>

lemma stopSession_eq: "stopSession st = released st"
  unfolding stopSession_def close_input_eq close_output_eq
    release_session_eq release_stream_eq release_processor_eq release_stream_source_eq
  by (simp add: released_def teardown_def flush_def)

lemma performed_stopSession: "performed st (stopSession st) = teardown st"
  by (simp add: stopSession_eq performed_def released_def)


lemma context_teardown_closed:
  "context_teardown close (context_closed r) =
     (if in_flight (context_closed r) then [UnhandledRejection InvalidStateError] else [])"
  by (cases r) (simp_all add: context_teardown_def context_closed_def holds_context_def)

lemma teardown_released:
  "teardown (released st) =
     (if in_flight (context_closed (inputAudioContextRef st))
      then [UnhandledRejection InvalidStateError] else [])
     @ (if in_flight (context_closed (outputAudioContextRef st))
        then [UnhandledRejection InvalidStateError] else [])"
  by (simp add: teardown_def released_def context_teardown_closed)











text \<open>
  In a browser that changes the \<open>state\<close> in a queued task, a second \<open>stopSession\<close> that
  runs before the task calls \<open>close()\<close> again on both contexts, and both calls are
  rejected.
\<close>

lemma second_stop_before_state_task:
  "performed (stopSession (onopen 4 5 (startSession env_task initial)))
     (stopSession (stopSession (onopen 4 5 (startSession env_task initial)))) =
     [UnhandledRejection InvalidStateError, UnhandledRejection InvalidStateError]"
  by (simp add: performed_stopSession)
    (simp add: stopSession_eq teardown_released context_closed_def in_flight_def
      onopen_def startSession_def env_task_def initial_def Let_def)

text \<open>
  When the connect promise is rejected, the registered continuation never closes the
  connection, and its own rejection is unhandled.
\<close>

lemma close_after_connect_rejected:
  "performed (stopSession connecting_session)
     (connect_rejected 3 e (stopSession connecting_session)) = [UnhandledRejection e]"
  by (simp add: performed_def connect_rejected_def stopSession_eq released_def
      connecting_session_def startSession_def env_ok_def initial_def Let_def)

section \<open>Properties of the encoder\<close>

lemma js_trunc_bounds:
  assumes "- 1 \<le> x" "x < 1"
  shows "- 32768 \<le> js_trunc (x * 32768)" "js_trunc (x * 32768) \<le> 32767"
  using assms unfolding js_trunc_def
  by (auto simp: le_ceiling_iff floor_le_iff le_floor_iff ceiling_le_iff; linarith)+

lemma js_trunc_towards_zero:
  "\<bar>real_of_int (js_trunc y)\<bar> \<le> \<bar>y\<bar>" "\<bar>y\<bar> < \<bar>real_of_int (js_trunc y)\<bar> + 1"
  "0 \<le> y \<Longrightarrow> 0 \<le> js_trunc y" "y \<le> 0 \<Longrightarrow> js_trunc y \<le> 0"
  unfolding js_trunc_def by (auto; linarith)+

lemma sint_16: "- 32768 \<le> k \<Longrightarrow> k \<le> 32767 \<Longrightarrow> sint (word_of_int k :: 16 word) = k"
  by (simp add: sint_sbintrunc' signed_take_bit_int_eq_self)

lemma createBlob_sample_sint:
  "- 1 \<le> x \<Longrightarrow> x < 1 \<Longrightarrow> sint (createBlob_sample x) = js_trunc (x * 32768)"
  by (simp add: createBlob_sample_def to_int16_def sint_16 js_trunc_bounds)

lemma bytes_word:
  "or (ucast (ucast w :: 8 word)) (push_bit 8 (ucast (ucast (drop_bit 8 w) :: 8 word)))
     = (w :: 16 word)"
  by (rule bit_word_eqI) (auto simp: bit_simps)

lemma low_byte: "uint (ucast (w :: 16 word) :: 8 word) = uint w mod 256"
  by (simp add: unsigned_ucast_eq take_bit_eq_mod)

lemma high_byte: "uint (ucast (drop_bit 8 (w :: 16 word)) :: 8 word) = uint w div 256"
proof -
  have b: "0 \<le> uint w" "uint w < 65536"
    using uint_lt2p [of w] by simp_all
  have "uint (ucast (drop_bit 8 w) :: 8 word) = uint (drop_bit 8 w) mod 256"
    by (simp add: unsigned_ucast_eq take_bit_eq_mod)
  also have "uint (drop_bit 8 w) = uint w div 256"
    by (simp add: drop_bit_eq_div uint_div)
  also have "uint w div 256 mod 256 = uint w div 256"
  proof -
    have "uint w div 256 < 256" "0 \<le> uint w div 256"
      using b by (simp_all add: div_int_pos_iff)
    then show ?thesis by simp
  qed
  finally show ?thesis .
qed

lemma frame_bytes_Cons:
  "frame_bytes (x # xs) =
     ucast (createBlob_sample x) # ucast (drop_bit 8 (createBlob_sample x)) # frame_bytes xs"
  by (simp add: frame_bytes_def createBlob_int16_def int16_bytes_def)

lemma decode_samples_frame_bytes:
  "decode_samples (frame_bytes xs) =
     Inr (map (\<lambda>x. real_of_int (sint (createBlob_sample x)) / 32768) xs)"
  by (induction xs) (simp_all add: frame_bytes_Cons bytes_word, simp add: frame_bytes_def createBlob_int16_def)

lemma decodeInbound_frame_bytes:
  "xs \<noteq> [] \<Longrightarrow>
   decodeInbound (frame_bytes xs) =
     Inr (map (\<lambda>x. real_of_int (sint (createBlob_sample x)) / 32768) xs)"
proof -
  assume "xs \<noteq> []"
  then have "frame_bytes xs \<noteq> []"
    by (cases xs) (simp_all add: frame_bytes_Cons)
  then show ?thesis
    by (simp add: decodeInbound_def decode_samples_frame_bytes)
qed

lemma decodeInbound_empty: "decodeInbound (frame_bytes []) = Inl DecodeError"
  by (simp add: decodeInbound_def frame_bytes_def createBlob_int16_def)

lemma roundtrip_below_one:
  assumes "- 1 \<le> x" "x < 1"
  shows "\<bar>real_of_int (sint (createBlob_sample x)) / 32768 - x\<bar> < 1 / 32768"
proof -
  let ?k = "real_of_int (js_trunc (x * 32768))"
  have "\<bar>?k - x * 32768\<bar> < 1"
    unfolding js_trunc_def by (auto; linarith)
  then have "\<bar>(?k - x * 32768) / 32768\<bar> < 1 / 32768"
    by (simp add: divide_strict_right_mono)
  then show ?thesis
    by (simp add: createBlob_sample_sint assms diff_divide_distrib)
qed

lemma wave_sample_saturates: "sint (wave_sample 1) = 32767" "sint (wave_sample (- 1)) = - 32768"
  by (simp_all add: wave_sample_def to_int32_def js_trunc_def)

text \<open>
  Claim C4, as the code has it. For every sample \<open>x\<close> with \<open>-1 \<le> x < 1\<close> the outbound
  encoder maps \<open>x\<close> to the 16-bit signed integer obtained by scaling by 32768 and
  truncating towards zero (not rounding to nearest): the integer \<open>k\<close> of the same sign
  with \<open>|k| \<le> |32768 x| < |k| + 1\<close>, which lies in \<open>[-32768, 32767]\<close>, so nothing
  wraps. Each integer is packed as two bytes, low byte first, and the frame carries
  the encoded bytes under the fixed tag \<open>audio/pcm;rate=16000\<close>.
\<close>

theorem createBlob_truncates:
  assumes "- 1 \<le> x" and "x < 1"
  shows "sint (createBlob_sample x) = js_trunc (x * 32768) \<and>
         - 32768 \<le> sint (createBlob_sample x) \<and> sint (createBlob_sample x) \<le> 32767 \<and>
         \<bar>real_of_int (sint (createBlob_sample x))\<bar> \<le> \<bar>x * 32768\<bar> \<and>
         \<bar>x * 32768\<bar> < \<bar>real_of_int (sint (createBlob_sample x))\<bar> + 1 \<and>
         (0 \<le> x \<longrightarrow> 0 \<le> sint (createBlob_sample x)) \<and>
         (x \<le> 0 \<longrightarrow> sint (createBlob_sample x) \<le> 0) \<and>
         (\<exists>lo hi. int16_bytes (createBlob_sample x) = [lo, hi] \<and>
                  uint lo = uint (createBlob_sample x) mod 256 \<and>
                  uint hi = uint (createBlob_sample x) div 256) \<and>
         frame_bytes (x # xs) = int16_bytes (createBlob_sample x) @ frame_bytes xs \<and>
         data (createBlob encode (x # xs)) = encode (frame_bytes (x # xs)) \<and>
         mimeType (createBlob encode (x # xs)) = ''audio/pcm;rate=16000''"
proof -
  note s = createBlob_sample_sint [OF assms]
  have "0 \<le> x \<Longrightarrow> 0 \<le> x * 32768" "x \<le> 0 \<Longrightarrow> x * 32768 \<le> 0"
    by simp_all
  then have sign: "0 \<le> x \<longrightarrow> 0 \<le> js_trunc (x * 32768)" "x \<le> 0 \<longrightarrow> js_trunc (x * 32768) \<le> 0"
    using js_trunc_towards_zero(3,4) [of "x * 32768"] by blast+
  have bytes: "\<exists>lo hi. int16_bytes (createBlob_sample x) = [lo, hi] \<and>
                  uint lo = uint (createBlob_sample x) mod 256 \<and>
                  uint hi = uint (createBlob_sample x) div 256"
    unfolding int16_bytes_def using low_byte high_byte by blast
  have frame: "frame_bytes (x # xs) = int16_bytes (createBlob_sample x) @ frame_bytes xs"
    by (simp add: frame_bytes_def createBlob_int16_def)
  show ?thesis
    unfolding s
    using js_trunc_bounds [OF assms] js_trunc_towards_zero(1,2) [of "x * 32768"] sign bytes frame
    by (simp add: createBlob_def)
qed

theorem createBlob_truncates_witness:
  "- 1 \<le> (49153 / 131072 :: real) \<and> (49153 / 131072 :: real) < 1 \<and>
   sint (createBlob_sample (49153 / 131072)) = 12288 \<and>
   int16_bytes (createBlob_sample (49153 / 131072)) = [0, 48] \<and>
   mimeType (createBlob example_encode [49153 / 131072]) = ''audio/pcm;rate=16000''"
  using createBlob_truncates [of "49153 / 131072" "[]" example_encode]
  by (simp add: js_trunc_def int16_bytes_def createBlob_sample_def to_int16_def)

theorem createBlob_counterexample:
  "sint (createBlob_sample 1) = - 32768 \<and>
   sint (createBlob_sample 1) \<noteq> 32767 \<and>
   sint (createBlob_sample (7 / 131072)) = 1 \<and>
   \<not> \<bar>real_of_int (sint (createBlob_sample (7 / 131072))) - 7 / 131072 * 32768\<bar> \<le> 1 / 2"
  by (simp add: createBlob_sample_def to_int16_def js_trunc_def)

text \<open>
  Claim C5, at the sample 1. The encoder stores \<open>1 * 32768 = 32768\<close> into the
  \<open>Int16Array\<close>, where it wraps to \<open>-32768\<close>; the decoder gives \<open>-1\<close> back, at distance
  2 from the original and not within \<open>1/32768\<close> of it.
\<close>

theorem roundtrip_full_scale:
  "decodeInbound (frame_bytes [1]) = Inr [- 1] \<and>
   \<not> \<bar>(- 1 :: real) - 1\<bar> \<le> 1 / 32768"
  by (simp add: decodeInbound_frame_bytes) (simp add: createBlob_sample_def to_int16_def js_trunc_def)

section \<open>Properties of the transcript\<close>

lemma list_all_dropWhile: "list_all P (dropWhile P xs) \<longleftrightarrow> list_all P xs"
  by (induction xs) simp_all

lemma trim_empty_iff: "trim s = [] \<longleftrightarrow> list_all is_white_space s"
proof -
  have "trim s = [] \<longleftrightarrow> list_all is_white_space (rev (dropWhile is_white_space s))"
    by (simp add: trim_def dropWhile_eq_Nil_conv list_all_iff)
  also have "\<dots> \<longleftrightarrow> list_all is_white_space (dropWhile is_white_space s)"
    by (simp add: list_all_iff)
  finally show ?thesis by (simp add: list_all_dropWhile)
qed

text \<open>What the rest of the handler does to the transcript when the turn is complete.\<close>

lemma onmessage_rest_turn:
  assumes "turnComplete m"
  shows "transcriptionHistory (onmessage_rest m st) =
           transcriptionHistory st
           @ (if trim (pending_input m st) \<noteq> []
              then [\<lparr>speaker = User, entry_text = pending_input m st\<rparr>] else [])
           @ (if trim (pending_output m st) \<noteq> []
              then [\<lparr>speaker = Model, entry_text = pending_output m st\<rparr>] else [])"
    and "currentInputTranscriptionRef (onmessage_rest m st) = []"
    and "currentOutputTranscriptionRef (onmessage_rest m st) = []"
  using assms
  by (simp_all add: onmessage_rest_def turn_complete_def flush_def pending_input_def
      pending_output_def Let_def split: option.splits)

text \<open>
  A handler is fulfilled exactly when it runs to its end. It has then run the rest of
  the handler, from a state with the same transcript and the same buffers; a handler
  that is rejected leaves the transcript and the buffers as they were.
\<close>

lemma onmessage_completes:
  "fst (onmessage dec now m st) = Fulfilled \<longleftrightarrow> completes dec m st"
  by (auto simp: onmessage_def onmessage_resume_def onmessage_begin_def schedule_cursor_def
      completes_def has_audio_def split: sum.splits option.splits)

lemma onmessage_fulfilled:
  assumes "fst (onmessage dec now m st) = Fulfilled"
  obtains st0 where "snd (onmessage dec now m st) = onmessage_rest m st0"
    and "transcriptionHistory st0 = transcriptionHistory st"
    and "currentInputTranscriptionRef st0 = currentInputTranscriptionRef st"
    and "currentOutputTranscriptionRef st0 = currentOutputTranscriptionRef st"
proof (cases "has_audio m st")
  case False
  then have "snd (onmessage dec now m st) = onmessage_rest m st"
    using assms by (auto simp: onmessage_def split: sum.splits option.splits)
  then show ?thesis using that by blast
next
  case True
  then obtain d where d: "base64EncodedAudioString m = Inr (Some d)"
    by (auto simp: has_audio_def split: sum.splits option.splits)
  with True assms obtain buf where b: "dec d = Inr buf"
    by (cases "dec d") (simp_all add: onmessage_def onmessage_resume_def)
  have "outputAudioContextRef (onmessage_begin now m st) \<noteq> None"
    using True by (simp add: onmessage_begin_def schedule_cursor_def has_audio_def d)
  then have "snd (onmessage dec now m st) =
      onmessage_rest m (schedule_source buf (onmessage_begin now m st))"
    using True d b by (auto simp: onmessage_def onmessage_resume_def)
  moreover have "transcriptionHistory (schedule_source buf (onmessage_begin now m st)) = transcriptionHistory st"
    "currentInputTranscriptionRef (schedule_source buf (onmessage_begin now m st)) = currentInputTranscriptionRef st"
    "currentOutputTranscriptionRef (schedule_source buf (onmessage_begin now m st)) = currentOutputTranscriptionRef st"
    by (simp_all add: schedule_source_def onmessage_begin_def schedule_cursor_def Let_def)
  ultimately show ?thesis using that by blast
qed

lemma onmessage_rejected:
  assumes "fst (onmessage dec now m st) \<noteq> Fulfilled"
  shows "transcriptionHistory (snd (onmessage dec now m st)) = transcriptionHistory st"
    and "currentInputTranscriptionRef (snd (onmessage dec now m st)) =
           currentInputTranscriptionRef st"
    and "currentOutputTranscriptionRef (snd (onmessage dec now m st)) =
           currentOutputTranscriptionRef st"
  using assms
  by (auto simp: onmessage_def onmessage_resume_def onmessage_begin_def schedule_cursor_def
      split: sum.splits option.splits if_splits)

lemma onmessage_turn:
  assumes "turnComplete m" "fst (onmessage dec now m st) = Fulfilled"
  shows "transcriptionHistory (snd (onmessage dec now m st)) =
           transcriptionHistory st
           @ (if trim (pending_input m st) \<noteq> []
              then [\<lparr>speaker = User, entry_text = pending_input m st\<rparr>] else [])
           @ (if trim (pending_output m st) \<noteq> []
              then [\<lparr>speaker = Model, entry_text = pending_output m st\<rparr>] else [])"
    and "currentInputTranscriptionRef (snd (onmessage dec now m st)) = []"
    and "currentOutputTranscriptionRef (snd (onmessage dec now m st)) = []"
proof -
  from assms(2) obtain st0 where st0: "snd (onmessage dec now m st) = onmessage_rest m st0"
    "transcriptionHistory st0 = transcriptionHistory st"
    "currentInputTranscriptionRef st0 = currentInputTranscriptionRef st"
    "currentOutputTranscriptionRef st0 = currentOutputTranscriptionRef st"
    by (rule onmessage_fulfilled)
  have p: "pending_input m st0 = pending_input m st" "pending_output m st0 = pending_output m st"
    by (simp_all add: pending_input_def pending_output_def st0)
  show "transcriptionHistory (snd (onmessage dec now m st)) =
           transcriptionHistory st
           @ (if trim (pending_input m st) \<noteq> []
              then [\<lparr>speaker = User, entry_text = pending_input m st\<rparr>] else [])
           @ (if trim (pending_output m st) \<noteq> []
              then [\<lparr>speaker = Model, entry_text = pending_output m st\<rparr>] else [])"
    using onmessage_rest_turn(1) [OF assms(1), of st0] by (simp only: st0 p)
  show "currentInputTranscriptionRef (snd (onmessage dec now m st)) = []"
    "currentOutputTranscriptionRef (snd (onmessage dec now m st)) = []"
    using onmessage_rest_turn(2,3) [OF assms(1), of st0] by (simp_all only: st0)
qed

text \<open>
  Claim C6, as the code has it. For every pair of accumulation-buffer contents, the
  handler of a turn-complete event, when it runs to its end (the read of the payload at
  line 126 does not throw, and an audio frame that the same message carries decodes),
  appends exactly the buffers whose trimmed text is not empty as entries, the user
  (input) entry before the model (output) entry when both are appended, and both
  accumulation buffers are empty afterwards; with the input buffer \<open>hello\<close> and the
  output buffer empty exactly the one entry \<open>{user, hello}\<close> is appended. When the
  handler does not run to its end it is rejected: nothing is appended and both buffers
  keep their contents.
\<close>

theorem turn_complete_appends:
  assumes "turnComplete m"
  shows "(fst (onmessage dec now m st) = Fulfilled) = completes dec m st \<and>
         (completes dec m st \<longrightarrow>
            transcriptionHistory (snd (onmessage dec now m st)) =
              transcriptionHistory st
              @ (if trim (pending_input m st) \<noteq> []
                 then [\<lparr>speaker = User, entry_text = pending_input m st\<rparr>] else [])
              @ (if trim (pending_output m st) \<noteq> []
                 then [\<lparr>speaker = Model, entry_text = pending_output m st\<rparr>] else []) \<and>
            currentInputTranscriptionRef (snd (onmessage dec now m st)) = [] \<and>
            currentOutputTranscriptionRef (snd (onmessage dec now m st)) = [] \<and>
            (pending_input m st = utf16 ''hello'' \<and> pending_output m st = [] \<longrightarrow>
               transcriptionHistory (snd (onmessage dec now m st)) =
                 transcriptionHistory st @ [\<lparr>speaker = User, entry_text = utf16 ''hello''\<rparr>])) \<and>
         (\<not> completes dec m st \<longrightarrow>
            transcriptionHistory (snd (onmessage dec now m st)) = transcriptionHistory st \<and>
            currentInputTranscriptionRef (snd (onmessage dec now m st)) =
              currentInputTranscriptionRef st \<and>
            currentOutputTranscriptionRef (snd (onmessage dec now m st)) =
              currentOutputTranscriptionRef st)"
proof -
  have hello: "trim (utf16 ''hello'') \<noteq> []" "trim [] = []"
    by (simp_all add: trim_def utf16_def is_white_space_def)
  note c = onmessage_completes [of dec now m st]
  show ?thesis
  proof (cases "completes dec m st")
    case True
    then have "fst (onmessage dec now m st) = Fulfilled" using c by simp
    from onmessage_turn [OF assms this] True c hello show ?thesis by simp
  next
    case False
    then have "fst (onmessage dec now m st) \<noteq> Fulfilled" using c by simp
    from onmessage_rejected [OF this] False c show ?thesis by simp
  qed
qed

lemma active_session_context:
  "outputAudioContextRef active_session \<noteq> None" "isSessionActive active_session"
  "length (started (effects active_session)) = 2" "transcriptionHistory active_session = []"
  "sourceCounter active_session = 2" "currentInputTranscriptionRef active_session = []"
  "currentOutputTranscriptionRef active_session = []"
  by (simp_all add: active_session_def schedule_def schedule_source_def schedule_cursor_def
      onopen_def startSession_def env_ok_def initial_def set_add_def Let_def)

theorem turn_complete_appends_witness:
  "turnComplete (no_content\<lparr>turnComplete := True\<rparr>) \<and>
   completes example_dec (no_content\<lparr>turnComplete := True\<rparr>)
     (initial\<lparr>currentInputTranscriptionRef := utf16 ''hello''\<rparr>) \<and>
   transcriptionHistory
     (snd (onmessage example_dec (dbl 0 0) (no_content\<lparr>turnComplete := True\<rparr>)
             (initial\<lparr>currentInputTranscriptionRef := utf16 ''hello''\<rparr>))) =
     [\<lparr>speaker = User, entry_text = utf16 ''hello''\<rparr>] \<and>
   currentInputTranscriptionRef
     (snd (onmessage example_dec (dbl 0 0) (no_content\<lparr>turnComplete := True\<rparr>)
             (initial\<lparr>currentInputTranscriptionRef := utf16 ''hello''\<rparr>))) = [] \<and>
   turnComplete ((audio_message (utf16 ''!!''))\<lparr>turnComplete := True\<rparr>) \<and>
   \<not> completes example_dec ((audio_message (utf16 ''!!''))\<lparr>turnComplete := True\<rparr>)
       (active_session\<lparr>currentInputTranscriptionRef := utf16 ''hello''\<rparr>) \<and>
   currentInputTranscriptionRef
     (snd (onmessage example_dec (dbl 8 (- 1))
             ((audio_message (utf16 ''!!''))\<lparr>turnComplete := True\<rparr>)
             (active_session\<lparr>currentInputTranscriptionRef := utf16 ''hello''\<rparr>))) =
     utf16 ''hello''"
proof -
  let ?m = "no_content\<lparr>turnComplete := True\<rparr>"
  let ?st = "initial\<lparr>currentInputTranscriptionRef := utf16 ''hello''\<rparr>"
  let ?bad = "(audio_message (utf16 ''!!''))\<lparr>turnComplete := True\<rparr>"
  let ?act = "active_session\<lparr>currentInputTranscriptionRef := utf16 ''hello''\<rparr>"
  have t: "turnComplete ?m" by (simp add: no_content_def)
  have f: "completes example_dec ?m ?st"
    by (simp add: completes_def base64EncodedAudioString_def no_content_def)
  have p: "pending_input ?m ?st = utf16 ''hello''" "pending_output ?m ?st = []"
    "transcriptionHistory ?st = []"
    by (simp_all add: pending_input_def pending_output_def no_content_def initial_def)
  have w: "trim (utf16 ''hello'') \<noteq> []" "trim [] = []"
    by (simp_all add: trim_def utf16_def is_white_space_def)
  note a = turn_complete_appends [OF t, of example_dec "dbl 0 0" ?st, THEN conjunct2,
      THEN conjunct1, rule_format, OF f]
  have a1: "transcriptionHistory (snd (onmessage example_dec (dbl 0 0) ?m ?st)) =
     [\<lparr>speaker = User, entry_text = utf16 ''hello''\<rparr>]"
    using a [THEN conjunct1] by (simp add: p w)
  note a2 = a [THEN conjunct2, THEN conjunct1]
  have t': "turnComplete ?bad" by (simp add: audio_message_def no_content_def)
  have f': "\<not> completes example_dec ?bad ?act"
    by (simp add: completes_def base64EncodedAudioString_def audio_message_def no_content_def
        has_audio_def utf16_def example_dec_def active_session_context)
  note b = turn_complete_appends [OF t', of example_dec "dbl 8 (- 1)" ?act, THEN conjunct2,
      THEN conjunct2, rule_format, OF f', THEN conjunct2, THEN conjunct1]
  have b1: "currentInputTranscriptionRef (snd (onmessage example_dec (dbl 8 (- 1)) ?bad ?act)) =
     utf16 ''hello''"
    using b by simp
  show ?thesis
    using t f a1 a2 t' f' b1 by (intro conjI)
qed

theorem turn_complete_counterexample:
  "currentInputTranscriptionRef (initial\<lparr>currentInputTranscriptionRef := utf16 '' ''\<rparr>) \<noteq> [] \<and>
   transcriptionHistory
     (turn_complete (initial\<lparr>currentInputTranscriptionRef := utf16 '' ''\<rparr>)) = [] \<and>
   turnComplete ((audio_message (utf16 ''!!''))\<lparr>turnComplete := True\<rparr>) \<and>
   trim (utf16 ''hello'') \<noteq> [] \<and>
   transcriptionHistory
     (snd (onmessage example_dec (dbl 8 (- 1))
             ((audio_message (utf16 ''!!''))\<lparr>turnComplete := True\<rparr>)
             (active_session\<lparr>currentInputTranscriptionRef := utf16 ''hello''\<rparr>))) = [] \<and>
   currentInputTranscriptionRef
     (snd (onmessage example_dec (dbl 8 (- 1))
             ((audio_message (utf16 ''!!''))\<lparr>turnComplete := True\<rparr>)
             (active_session\<lparr>currentInputTranscriptionRef := utf16 ''hello''\<rparr>))) =
     utf16 ''hello''"
  by (simp add: turn_complete_def trim_def utf16_def is_white_space_def initial_def
      onmessage_def onmessage_resume_def onmessage_begin_def has_audio_def schedule_cursor_def
      base64EncodedAudioString_def audio_message_def no_content_def example_dec_def
      active_session_context)

text \<open>
  Claim C10. On a turn-complete event a buffer that consists of white space only
  produces no entry, and an entry that is produced carries the accumulated text as it
  is, untrimmed.
\<close>

theorem turn_complete_trims_for_emptiness_only:
  assumes "turnComplete m" and "fst (onmessage dec now m st) = Fulfilled"
  shows "transcriptionHistory (snd (onmessage dec now m st)) =
           transcriptionHistory st
           @ (if list_all is_white_space (pending_input m st) then []
              else [\<lparr>speaker = User, entry_text = pending_input m st\<rparr>])
           @ (if list_all is_white_space (pending_output m st) then []
              else [\<lparr>speaker = Model, entry_text = pending_output m st\<rparr>])"
  using onmessage_turn(1) [OF assms] by (simp add: trim_empty_iff)

theorem turn_complete_trims_for_emptiness_only_witness:
  "turnComplete (no_content\<lparr>turnComplete := True\<rparr>) \<and>
   fst (onmessage example_dec (dbl 0 0) (no_content\<lparr>turnComplete := True\<rparr>)
          (initial\<lparr>currentInputTranscriptionRef := utf16 ''  hi '',
                    currentOutputTranscriptionRef := utf16 ''   ''\<rparr>)) = Fulfilled \<and>
   transcriptionHistory
     (snd (onmessage example_dec (dbl 0 0) (no_content\<lparr>turnComplete := True\<rparr>)
             (initial\<lparr>currentInputTranscriptionRef := utf16 ''  hi '',
                       currentOutputTranscriptionRef := utf16 ''   ''\<rparr>))) =
     [\<lparr>speaker = User, entry_text = utf16 ''  hi ''\<rparr>] \<and>
   trim (utf16 ''  hi '') = utf16 ''hi''"
proof -
  let ?m = "no_content\<lparr>turnComplete := True\<rparr>"
  let ?st = "initial\<lparr>currentInputTranscriptionRef := utf16 ''  hi '',
                     currentOutputTranscriptionRef := utf16 ''   ''\<rparr>"
  have t: "turnComplete ?m" by (simp add: no_content_def)
  have f: "fst (onmessage example_dec (dbl 0 0) ?m ?st) = Fulfilled"
    by (simp add: onmessage_def base64EncodedAudioString_def no_content_def)
  have p: "pending_input ?m ?st = utf16 ''  hi ''" "pending_output ?m ?st = utf16 ''   ''"
    "transcriptionHistory ?st = []"
    by (simp_all add: pending_input_def pending_output_def no_content_def initial_def)
  have w: "\<not> list_all is_white_space (utf16 ''  hi '')" "list_all is_white_space (utf16 ''   '')"
    "trim (utf16 ''  hi '') = utf16 ''hi''"
    by (simp_all add: utf16_def is_white_space_def trim_def)
  from turn_complete_trims_for_emptiness_only [OF t f] p t f w show ?thesis by simp
qed

section \<open>Properties of the message handler and of the session start\<close>

lemma started_stops: "started (map (\<lambda>s. SourceStop (f s)) xs) = []"
  by (induction xs) simp_all

lemma onmessage_rest_keeps:
  "started (effects (onmessage_rest m st)) = started (effects st)"
  "outputAudioContextRef (onmessage_rest m st) = outputAudioContextRef st"
  "isSessionActive (onmessage_rest m st) = isSessionActive st"
  by (simp_all add: onmessage_rest_def turn_complete_def flush_def started_append started_stops
      Let_def split: option.splits)

lemma schedule_source_keeps:
  "started (effects (schedule_source buf st)) =
     started (effects st) @ [\<lparr> src_id = sourceCounter st, src_duration = duration buf,
                               src_when = nextStartTimeRef st \<rparr>]"
  "outputAudioContextRef (schedule_source buf st) = outputAudioContextRef st"
  "isSessionActive (schedule_source buf st) = isSessionActive st"
  by (simp_all add: schedule_source_def started_append Let_def)

lemma onmessage_begin_keeps:
  "effects (onmessage_begin now m st) = effects st"
  "outputAudioContextRef (onmessage_begin now m st) = outputAudioContextRef st"
  "isSessionActive (onmessage_begin now m st) = isSessionActive st"
  by (simp_all add: onmessage_begin_def schedule_cursor_def)

lemma onmessage_keeps:
  "outputAudioContextRef (snd (onmessage dec now m st)) = outputAudioContextRef st"
  "isSessionActive (snd (onmessage dec now m st)) = isSessionActive st"
  by (simp_all add: onmessage_def onmessage_resume_def onmessage_rest_keeps
      schedule_source_keeps onmessage_begin_keeps split: option.splits sum.splits)

lemma onmessage_started:
  assumes "outputAudioContextRef st \<noteq> None"
  shows "length (started (effects (snd (onmessage dec now m st)))) =
           length (started (effects st)) + (if valid_frame dec m then 1 else 0)"
  using assms
  by (auto simp: onmessage_def onmessage_resume_def onmessage_rest_keeps schedule_source_keeps
      onmessage_begin_keeps valid_frame_def has_audio_def split: option.splits sum.splits)

lemma onmessages_keeps:
  "outputAudioContextRef (onmessages dec es st) = outputAudioContextRef st"
  "isSessionActive (onmessages dec es st) = isSessionActive st"
  by (induction es arbitrary: st) (simp_all add: onmessage_keeps)

lemma onmessages_started:
  "outputAudioContextRef st \<noteq> None \<Longrightarrow>
   length (started (effects (onmessages dec es st))) =
     length (started (effects st)) + length (filter (valid_frame dec) (map snd es))"
proof (induction es arbitrary: st)
  case Nil
  then show ?case by simp
next
  case (Cons e es)
  have "outputAudioContextRef (snd (onmessage dec (fst e) (snd e) st)) \<noteq> None"
    using Cons.prems by (simp add: onmessage_keeps)
  from Cons.IH [OF this] show ?case
    using Cons.prems by (simp add: onmessage_started)
qed

text \<open>
  Claim C9, as the code has it. For every inbound event sequence in which the audio
  frame of one message fails to decode, the handler of that message is rejected at the
  decode with the decoder's error (the handler has no \<open>catch\<close> and logs nothing): the
  cursor update made before the decode stays and nothing else of that message is
  processed. The session stays active, and of the later messages every one that
  carries a valid frame has it decoded and started.
\<close>

theorem decode_failure_rejects_one_handler:
  assumes "outputAudioContextRef st \<noteq> None" and "base64EncodedAudioString m = Inr (Some d)"
    and "d \<noteq> []" and "dec d = Inl e"
  shows "onmessage dec now m st =
           (Rejected e, st\<lparr>nextStartTimeRef := max (nextStartTimeRef st) now\<rparr>) \<and>
         isSessionActive (onmessages dec later (snd (onmessage dec now m st))) =
           isSessionActive st \<and>
         length (started (effects (onmessages dec later (snd (onmessage dec now m st))))) =
           length (started (effects st)) + length (filter (valid_frame dec) (map snd later))"
proof -
  have r: "onmessage dec now m st =
             (Rejected e, st\<lparr>nextStartTimeRef := max (nextStartTimeRef st) now\<rparr>)"
    using assms
    by (simp add: onmessage_def onmessage_resume_def onmessage_begin_def has_audio_def
        schedule_cursor_def)
  have "outputAudioContextRef (snd (onmessage dec now m st)) \<noteq> None"
    using assms(1) by (simp add: onmessage_keeps)
  from onmessages_started [OF this, of dec later] show ?thesis
    unfolding r by (simp add: onmessages_keeps)
qed

lemma audio_message_payload: "base64EncodedAudioString (audio_message d) = Inr (Some d)"
  by (simp add: base64EncodedAudioString_def audio_message_def no_content_def)

theorem decode_failure_rejects_one_handler_witness:
  "outputAudioContextRef active_session \<noteq> None \<and>
   base64EncodedAudioString (audio_message (utf16 ''!!'')) = Inr (Some (utf16 ''!!'')) \<and>
   utf16 ''!!'' \<noteq> [] \<and> example_dec (utf16 ''!!'') = Inl DecodeError \<and>
   fst (onmessage example_dec (dbl 8 (- 1)) (audio_message (utf16 ''!!'')) active_session) =
     Rejected DecodeError \<and>
   isSessionActive
     (onmessages example_dec [(dbl 10 (- 1), audio_message (utf16 ''AAAA''))]
        (snd (onmessage example_dec (dbl 8 (- 1)) (audio_message (utf16 ''!!''))
                active_session))) \<and>
   length (started (effects
     (onmessages example_dec [(dbl 10 (- 1), audio_message (utf16 ''AAAA''))]
        (snd (onmessage example_dec (dbl 8 (- 1)) (audio_message (utf16 ''!!''))
                active_session))))) = 3"
proof -
  let ?bad = "audio_message (utf16 ''!!'')"
  let ?good = "audio_message (utf16 ''AAAA'')"
  have h: "outputAudioContextRef active_session \<noteq> None"
    "base64EncodedAudioString ?bad = Inr (Some (utf16 ''!!''))"
    "utf16 ''!!'' \<noteq> []" "example_dec (utf16 ''!!'') = Inl DecodeError"
    by (simp_all add: active_session_context audio_message_payload utf16_def example_dec_def)
  have v: "valid_frame example_dec ?good"
    by (simp add: valid_frame_def audio_message_payload utf16_def example_dec_def)
  have one: "length (filter (valid_frame example_dec) (map snd [(dbl 10 (- 1), ?good)])) = 1"
    using v by simp
  note t = decode_failure_rejects_one_handler
    [where dec = example_dec and d = "utf16 ''!!''" and e = DecodeError and st = active_session
       and m = ?bad and now = "dbl 8 (- 1)" and later = "[(dbl 10 (- 1), ?good)]", OF h]
  have a: "fst (onmessage example_dec (dbl 8 (- 1)) ?bad active_session) = Rejected DecodeError"
    by (simp only: t [THEN conjunct1] fst_conv)
  have b: "isSessionActive (onmessages example_dec [(dbl 10 (- 1), ?good)]
             (snd (onmessage example_dec (dbl 8 (- 1)) ?bad active_session)))"
    by (simp only: t [THEN conjunct2, THEN conjunct1] active_session_context)
  have c: "length (started (effects (onmessages example_dec [(dbl 10 (- 1), ?good)]
             (snd (onmessage example_dec (dbl 8 (- 1)) ?bad active_session))))) = 3"
    by (simp only: t [THEN conjunct2, THEN conjunct2] active_session_context one)
  show ?thesis
    using h a b c by (intro conjI)
qed

theorem decode_failure_counterexample:
  "fst (onmessage example_dec (dbl 8 (- 1))
          ((audio_message (utf16 ''!!''))\<lparr>turnComplete := True\<rparr>)
          (active_session\<lparr>currentInputTranscriptionRef := utf16 ''hello''\<rparr>))
     = Rejected DecodeError \<and>
   transcriptionHistory (snd (onmessage example_dec (dbl 8 (- 1))
          ((audio_message (utf16 ''!!''))\<lparr>turnComplete := True\<rparr>)
          (active_session\<lparr>currentInputTranscriptionRef := utf16 ''hello''\<rparr>))) = [] \<and>
   currentInputTranscriptionRef (snd (onmessage example_dec (dbl 8 (- 1))
          ((audio_message (utf16 ''!!''))\<lparr>turnComplete := True\<rparr>)
          (active_session\<lparr>currentInputTranscriptionRef := utf16 ''hello''\<rparr>)))
     = utf16 ''hello'' \<and>
   transcriptionHistory (snd (onmessage example_dec (dbl 8 (- 1))
          (no_content\<lparr>turnComplete := True\<rparr>)
          (active_session\<lparr>currentInputTranscriptionRef := utf16 ''hello''\<rparr>)))
     = [\<lparr>speaker = User, entry_text = utf16 ''hello''\<rparr>]"
  by (simp add: onmessage_def onmessage_resume_def onmessage_begin_def has_audio_def
      schedule_cursor_def base64EncodedAudioString_def audio_message_def no_content_def
      example_dec_def utf16_def active_session_context
      onmessage_rest_def turn_complete_def trim_def is_white_space_def)

lemma started_track_stops: "started (map TrackStop ts) = []"
  by (induction ts) simp_all

lemma started_teardown: "started (teardown st) = []"
  by (simp add: teardown_def context_teardown_def started_append started_stops
      started_track_stops split: option.splits)

lemma started_released: "started (effects (released st)) = started (effects st)"
  by (simp add: released_def started_append started_teardown)

lemma onmessage_rest_sources:
  "\<not> interrupted m \<Longrightarrow> audioSourcesRef (onmessage_rest m st) = audioSourcesRef st"
  "\<not> interrupted m \<Longrightarrow> nextStartTimeRef (onmessage_rest m st) = nextStartTimeRef st"
  by (simp_all add: onmessage_rest_def turn_complete_def Let_def split: option.splits)

text \<open>
  Claim C7, as the code has it. Neither the handler nor \<open>stopSession\<close> has a session
  generation or validity check: the handler tests, before the decode starts, only that
  the payload is not empty and that the playback context ref is set, and \<open>stopSession\<close>
  closes the context without clearing that ref. So for every inbound audio event that
  passed the test, a decode that completes after the session close is still scheduled:
  the handler is fulfilled, the source is started at the reset cursor 0 and, unless the
  same message carries the interruption flag, it is the one source of the set and the
  cursor is its duration; and a message that arrives after the close passes the test
  as well.
\<close>

theorem decode_after_close_is_scheduled:
  assumes "has_audio m st" and "st' = stopSession (onmessage_begin now m st)"
  shows "has_audio m st' \<and>
         fst (onmessage_resume (Inr buf) m st') = Fulfilled \<and>
         started (effects (snd (onmessage_resume (Inr buf) m st'))) =
           started (effects st)
           @ [\<lparr>src_id = sourceCounter st, src_duration = duration buf, src_when = 0\<rparr>] \<and>
         (\<not> interrupted m \<longrightarrow>
            audioSourcesRef (snd (onmessage_resume (Inr buf) m st')) =
              [\<lparr>src_id = sourceCounter st, src_duration = duration buf, src_when = 0\<rparr>] \<and>
            nextStartTimeRef (snd (onmessage_resume (Inr buf) m st')) = duration buf)"
proof -
  let ?b = "onmessage_begin now m st"
  have st': "st' = released ?b"
    using assms(2) by (simp add: stopSession_eq)
  obtain c where c: "outputAudioContextRef st = Some c"
    using assms(1) by (auto simp: has_audio_def split: option.splits sum.splits)
  obtain c' where ctx: "outputAudioContextRef st' = Some c'"
    by (simp add: st' released_def context_closed_def onmessage_begin_keeps c)
  have fields: "sourceCounter st' = sourceCounter st" "nextStartTimeRef st' = 0"
    "audioSourcesRef st' = []"
    by (simp_all add: st' released_def onmessage_begin_def schedule_cursor_def)
  have eff: "started (effects st') = started (effects st)"
    by (simp add: st' started_released onmessage_begin_keeps)
  have r: "onmessage_resume (Inr buf) m st' =
             (Fulfilled, onmessage_rest m (schedule_source buf st'))"
    by (simp add: onmessage_resume_def ctx)
  have "has_audio m st'"
    using assms(1) by (simp add: has_audio_def ctx split: option.splits sum.splits)
  moreover have "started (effects (snd (onmessage_resume (Inr buf) m st'))) =
      started (effects st)
      @ [\<lparr>src_id = sourceCounter st, src_duration = duration buf, src_when = 0\<rparr>]"
    by (simp add: r onmessage_rest_keeps schedule_source_keeps fields eff)
  moreover have "audioSourcesRef (snd (onmessage_resume (Inr buf) m st')) =
      [\<lparr>src_id = sourceCounter st, src_duration = duration buf, src_when = 0\<rparr>]"
    "nextStartTimeRef (snd (onmessage_resume (Inr buf) m st')) = duration buf"
    if "\<not> interrupted m"
    using that
    by (simp_all add: r onmessage_rest_sources schedule_source_def fields set_add_def Let_def
        zero_plus_double)
  ultimately show ?thesis
    by (simp add: r)
qed

theorem decode_after_close_is_scheduled_witness:
  "has_audio (audio_message (utf16 ''AAAA'')) active_session \<and>
   fst (onmessage_resume (Inr \<lparr>duration = dbl 1 0\<rparr>) (audio_message (utf16 ''AAAA''))
          (stopSession (onmessage_begin (dbl 8 (- 1)) (audio_message (utf16 ''AAAA''))
                          active_session))) = Fulfilled \<and>
   audioSourcesRef (snd (onmessage_resume (Inr \<lparr>duration = dbl 1 0\<rparr>)
          (audio_message (utf16 ''AAAA''))
          (stopSession (onmessage_begin (dbl 8 (- 1)) (audio_message (utf16 ''AAAA''))
                          active_session)))) =
     [\<lparr>src_id = 2, src_duration = dbl 1 0, src_when = 0\<rparr>] \<and>
   nextStartTimeRef (snd (onmessage_resume (Inr \<lparr>duration = dbl 1 0\<rparr>)
          (audio_message (utf16 ''AAAA''))
          (stopSession (onmessage_begin (dbl 8 (- 1)) (audio_message (utf16 ''AAAA''))
                          active_session)))) = dbl 1 0"
proof -
  let ?m = "audio_message (utf16 ''AAAA'')"
  let ?st' = "stopSession (onmessage_begin (dbl 8 (- 1)) ?m active_session)"
  have h: "has_audio ?m active_session"
    by (simp add: has_audio_def audio_message_payload utf16_def active_session_context)
  have n: "\<not> interrupted ?m"
    by (simp add: audio_message_def no_content_def)
  note t = decode_after_close_is_scheduled
    [where st' = ?st' and buf = "\<lparr>duration = dbl 1 0\<rparr>", OF h refl]
  have a: "fst (onmessage_resume (Inr \<lparr>duration = dbl 1 0\<rparr>) ?m ?st') = Fulfilled"
    by (rule t [THEN conjunct2, THEN conjunct1])
  note u = t [THEN conjunct2, THEN conjunct2, THEN conjunct2, rule_format, OF n]
  have b: "audioSourcesRef (snd (onmessage_resume (Inr \<lparr>duration = dbl 1 0\<rparr>) ?m ?st')) =
             [\<lparr>src_id = 2, src_duration = dbl 1 0, src_when = 0\<rparr>]"
    using u [THEN conjunct1] by (simp add: active_session_context)
  have c: "nextStartTimeRef (snd (onmessage_resume (Inr \<lparr>duration = dbl 1 0\<rparr>) ?m ?st')) =
             dbl 1 0"
    using u [THEN conjunct2] by simp
  show ?thesis
    using h a b c by (intro conjI)
qed

theorem decode_after_close_counterexample:
  "map_option ctx_state
     (outputAudioContextRef
        (stopSession (onmessage_begin (dbl 8 (- 1)) (audio_message (utf16 ''AAAA''))
                        active_session))) = Some Closed \<and>
   \<not> isSessionActive
     (stopSession (onmessage_begin (dbl 8 (- 1)) (audio_message (utf16 ''AAAA''))
                     active_session)) \<and>
   fst (onmessage_resume (Inr \<lparr>duration = dbl 1 0\<rparr>) (audio_message (utf16 ''AAAA''))
          (stopSession (onmessage_begin (dbl 8 (- 1)) (audio_message (utf16 ''AAAA''))
                          active_session))) = Fulfilled \<and>
   audioSourcesRef (snd (onmessage_resume (Inr \<lparr>duration = dbl 1 0\<rparr>)
          (audio_message (utf16 ''AAAA''))
          (stopSession (onmessage_begin (dbl 8 (- 1)) (audio_message (utf16 ''AAAA''))
                          active_session)))) =
     [\<lparr>src_id = 2, src_duration = dbl 1 0, src_when = 0\<rparr>]"
proof -
  let ?m = "audio_message (utf16 ''AAAA'')"
  let ?b = "onmessage_begin (dbl 8 (- 1)) ?m active_session"
  have o: "outputAudioContextRef active_session =
             Some \<lparr>ctx_state = Running, closing = False, closes_at_call = True\<rparr>"
    by (simp add: active_session_def schedule_def schedule_source_def schedule_cursor_def
        onopen_def startSession_def env_ok_def initial_def Let_def)
  have c: "outputAudioContextRef (released ?b) =
             Some \<lparr>ctx_state = Closed, closing = False, closes_at_call = True\<rparr>"
    by (simp add: released_def context_closed_def onmessage_begin_keeps o)
  have n: "\<not> interrupted ?m"
    by (simp add: audio_message_def no_content_def)
  have f: "sourceCounter (released ?b) = 2" "nextStartTimeRef (released ?b) = 0"
    "audioSourcesRef (released ?b) = []"
    by (simp_all add: released_def onmessage_begin_def schedule_cursor_def
        active_session_context)
  have r: "onmessage_resume (Inr \<lparr>duration = dbl 1 0\<rparr>) ?m (released ?b) =
             (Fulfilled, onmessage_rest ?m (schedule_source \<lparr>duration = dbl 1 0\<rparr> (released ?b)))"
    by (simp add: onmessage_resume_def c)
  show ?thesis
    unfolding stopSession_eq r
    by (simp add: c onmessage_rest_sources n schedule_source_def f set_add_def Let_def)
      (simp add: released_def)
qed

text \<open>
  Claim C8, at a failure after partial acquisition. \<open>getUserMedia\<close> has given a stream with
  one track and the capture context has been created when the constructor of the
  playback context throws. The \<open>catch\<close> block reports the error and ends the connecting
  state, and releases nothing: the stream ref still holds the track, which was not
  stopped, and the capture context is not closed.
\<close>

theorem startSession_failure_leaks:
  "error (startSession env_partial initial) =
     Some ''Failed to start session: NotSupportedError'' \<and>
   \<not> isConnecting (startSession env_partial initial) \<and>
   \<not> isSessionActive (startSession env_partial initial) \<and>
   streamRef (startSession env_partial initial) = Some [7] \<and>
   holds_stream (startSession env_partial initial) \<and>
   holds_context (inputAudioContextRef (startSession env_partial initial)) \<and>
   effects (startSession env_partial initial) = []"
  by (simp add: startSession_def env_partial_def env_ok_def start_failed_def initial_def
      holds_stream_def holds_context_def Let_def)

text \<open>
  When \<open>getUserMedia\<close> itself is refused nothing has been acquired, and the \<open>catch\<close> block
  leaves nothing held.
\<close>

lemma startSession_refused:
  assumes "getUserMedia env = Inl e"
  shows "startSession env initial =
           initial\<lparr>error := Some (''Failed to start session: '' @ message e)\<rparr>"
  using assms by (simp add: startSession_def start_failed_def initial_def Let_def)

end
